theory Spec2Isabelle
  imports Main "HOL-Library.Word"
begin

section \<open>Python values, exceptions and observable effects\<close>

text \<open>
  The modules verified here are Python 3 sources.  A value that the code compares
  across types is a \<open>pyval\<close>: Python's \<open>==\<close> between an \<open>int\<close> and a \<open>bytes\<close>
  object is \<open>False\<close> (never an error), which is exactly equality of this datatype.
  A \<open>bytes\<close> object is a list of 8-bit words; a \<open>str\<close> is a \<open>string\<close> whose characters
  stand for the code points below 256.
\<close>

type_synonym bytes = "8 word list"

datatype pyval = PInt int | PBytes bytes | PStr string

datatype error = TypeError | ValueError | NameError | IndexError | StopIteration

text \<open>
  Callbacks and the logger are the only effects of the Telnet parser: each call is
  recorded, in order, as an event.  \<open>Logged lvl msg vs\<close> is a call of
  \<open>logger.debug\<close> / \<open>logger.warning\<close> with the constant part of the f-string and the
  interpolated values.
\<close>

datatype loglevel = Debug | Warning

datatype event =
    DataReceived pyval
  | SizeReceived int int
  | TtypeReceived string
  | Logged loglevel string "pyval list"

type_synonym 'a outcome = "event list \<times> (error + 'a)"

section \<open>contrib/telnet/protocol.py\<close>

text \<open>
  \<open>int2byte\<close> is called by the module for every protocol constant but is neither
  defined nor imported in \<open>protocol.py\<close>.  Its type is fixed by the uses: the constants
  are concatenated with \<open>+\<close> and handed to \<open>data_received_callback: Callable[[bytes], None]\<close>,
  and passed to \<open>bytes.startswith\<close>; so \<open>int2byte n\<close> is the one-byte \<open>bytes\<close> object.
\<close>

definition int2byte :: "nat \<Rightarrow> pyval" where
  "int2byte n = PBytes [of_nat n]"

definition IAC :: pyval where "IAC = int2byte 255"
definition DO :: pyval where "DO = int2byte 253"
definition DONT :: pyval where "DONT = int2byte 254"
definition SB :: pyval where "SB = int2byte 250"
definition WILL :: pyval where "WILL = int2byte 251"
definition WONT :: pyval where "WONT = int2byte 252"
definition SE :: pyval where "SE = int2byte 240"
definition ECHO :: pyval where "ECHO = int2byte 1"
definition NAWS :: pyval where "NAWS = int2byte 31"
definition SUPPRESS_GO_AHEAD :: pyval where "SUPPRESS_GO_AHEAD = int2byte 3"
definition TTYPE :: pyval where "TTYPE = int2byte 24"
definition IS :: pyval where "IS = int2byte 0"

text \<open>Python's \<open>a + b\<close> on the values that occur here.\<close>

fun py_add :: "pyval \<Rightarrow> pyval \<Rightarrow> error + pyval" where
  "py_add (PBytes a) (PBytes b) = Inr (PBytes (a @ b))"
| "py_add (PInt a) (PInt b) = Inr (PInt (a + b))"
| "py_add (PStr a) (PStr b) = Inr (PStr (a @ b))"
| "py_add _ _ = Inl TypeError"

text \<open>
  \<open>bytes(xs)\<close> for a list \<open>xs\<close>: every element must be an \<open>int\<close> in \<open>range(256)\<close>;
  another \<open>int\<close> raises \<open>ValueError\<close>, a non-integer raises \<open>TypeError\<close>.
\<close>

fun py_bytes :: "pyval list \<Rightarrow> error + bytes" where
  "py_bytes [] = Inr []"
| "py_bytes (PInt n # xs) =
     (if 0 \<le> n \<and> n < 256
      then (case py_bytes xs of Inl e \<Rightarrow> Inl e | Inr bs \<Rightarrow> Inr (word_of_int n # bs))
      else Inl ValueError)"
| "py_bytes (_ # xs) = Inl TypeError"

text \<open>\<open>self.data_received_callback(x)\<close> where \<open>x\<close> is the result of an expression.\<close>

definition data_received_callback :: "error + pyval \<Rightarrow> unit outcome" where
  "data_received_callback x =
     (case x of Inl e \<Rightarrow> ([], Inl e) | Inr v \<Rightarrow> ([DataReceived v], Inr ()))"

definition after_log :: "event \<Rightarrow> 'a outcome \<Rightarrow> 'a outcome" where
  "after_log ev r = (ev # fst r, snd r)"

definition do_received :: "pyval \<Rightarrow> unit outcome" where
  "do_received data =
     after_log (Logged Debug ''Received DO command: '' [data])
       (if data = ECHO then data_received_callback (py_add WILL ECHO)
        else if data = SUPPRESS_GO_AHEAD then data_received_callback (py_add WILL SUPPRESS_GO_AHEAD)
        else data_received_callback (py_add WONT data))"

definition dont_received :: "pyval \<Rightarrow> unit outcome" where
  "dont_received data =
     after_log (Logged Debug ''Received DONT command: '' [data])
       (data_received_callback (py_add WONT data))"

definition will_received :: "pyval \<Rightarrow> unit outcome" where
  "will_received data =
     after_log (Logged Debug ''Received WILL command: '' [data])
       (if data \<in> {ECHO, SUPPRESS_GO_AHEAD} then data_received_callback (py_add DO data)
        else data_received_callback (py_add DONT data))"

definition wont_received :: "pyval \<Rightarrow> unit outcome" where
  "wont_received data =
     after_log (Logged Debug ''Received WONT command: '' [data])
       (data_received_callback (py_add DONT data))"

text \<open>\<open>struct.unpack('!HH', data)\<close> on four bytes: two big-endian unsigned 16-bit values.\<close>

definition unpack_HH :: "bytes \<Rightarrow> int \<times> int" where
  "unpack_HH data =
     (256 * uint (data ! 0) + uint (data ! 1), 256 * uint (data ! 2) + uint (data ! 3))"

definition naws :: "bytes \<Rightarrow> event list" where
  "naws data =
     (if length data = 4
      then (let (columns, rows) = unpack_HH data
            in [Logged Debug ''Received window size: '' [PInt columns, PInt rows],
                SizeReceived rows columns])
      else [Logged Warning ''Invalid NAWS data received: '' [PBytes data]])"

text \<open>\<open>data.decode('ascii', errors='ignore')\<close>: bytes above 127 are dropped.\<close>

definition decode_ascii_ignore :: "bytes \<Rightarrow> string" where
  "decode_ascii_ignore data = map (\<lambda>b. char_of (unat b)) (filter (\<lambda>b. b < 128) data)"

text \<open>\<open>data.startswith(c)\<close> for a \<open>bytes\<close> object \<open>data\<close> and a module constant \<open>c\<close>.\<close>

fun startswith_bytes :: "bytes \<Rightarrow> pyval \<Rightarrow> bool" where
  "startswith_bytes data (PBytes p) = (take (length p) data = p)"
| "startswith_bytes data _ = False"

definition ttype :: "bytes \<Rightarrow> event list" where
  "ttype data =
     (if startswith_bytes data IS
      then (let terminal_type = decode_ascii_ignore (drop 1 data)
            in [Logged Debug ''Received terminal type: '' [PStr terminal_type],
                TtypeReceived terminal_type])
      else [Logged Warning ''Invalid TTYPE data received: '' [PBytes data]])"

definition negotiate :: "bytes \<Rightarrow> event list" where
  "negotiate data =
     Logged Debug ''Negotiating: '' [PBytes data] #
       (if startswith_bytes data NAWS then naws (drop 1 data)
        else if startswith_bytes data TTYPE then ttype (drop 1 data)
        else [Logged Warning ''Unknown negotiation option: '' [PBytes data]])"

text \<open>
  \<open>_parse_coroutine\<close> is a generator; between two \<open>send\<close>s it is suspended at one of
  its five \<open>yield\<close> expressions, with the local variables that are still live there.
  \<open>Closed\<close> is the generator after an exception has left its frame.
\<close>

datatype parser_state =
    AtD
  | AtD2
  | AtD3 pyval
  | AtSubD3 "pyval list"
  | AtSubD4 "pyval list" pyval
  | Closed

text \<open>One \<open>self._parser.send(v)\<close>: run from the current \<open>yield\<close> to the next one.\<close>

fun send :: "parser_state \<Rightarrow> pyval \<Rightarrow> parser_state outcome" where
  "send AtD d =
     (if d = IAC then ([], Inr AtD2)
      else (case py_bytes [d] of
              Inl e \<Rightarrow> ([], Inl e)
            | Inr b \<Rightarrow> ([DataReceived (PBytes b)], Inr AtD)))"
| "send AtD2 d2 =
     (if d2 = IAC then ([DataReceived IAC], Inr AtD)
      else if d2 \<in> {DO, DONT, WILL, WONT} then ([], Inr (AtD3 d2))
      else if d2 = SB then ([], Inr (AtSubD3 []))
      else ([Logged Warning ''Unknown IAC command: '' [d2]], Inr AtD))"
| "send (AtD3 d2) d3 =
     (let r = (if d2 = DO then do_received d3
               else if d2 = DONT then dont_received d3
               else if d2 = WILL then will_received d3
               else if d2 = WONT then wont_received d3
               else ([], Inr ()))
      in (fst r, case snd r of Inl e \<Rightarrow> Inl e | Inr _ \<Rightarrow> Inr AtD))"
| "send (AtSubD3 subnegotiation) d3 =
     (if d3 = IAC then ([], Inr (AtSubD4 subnegotiation d3))
      else ([], Inr (AtSubD3 (subnegotiation @ [d3]))))"
| "send (AtSubD4 subnegotiation d3) d4 =
     (if d4 = SE
      then (case py_bytes subnegotiation of
              Inl e \<Rightarrow> ([], Inl e)
            | Inr b \<Rightarrow> (negotiate b, Inr AtD))
      else ([], Inr (AtSubD3 (subnegotiation @ [d3, d4]))))"
| "send Closed v = ([], Inl StopIteration)"

text \<open>A sequence of \<open>send\<close>s; the first exception ends it.\<close>

fun send_all :: "parser_state \<Rightarrow> pyval list \<Rightarrow> parser_state outcome" where
  "send_all st [] = ([], Inr st)"
| "send_all st (v # vs) =
     (case send st v of
        (evs, Inl e) \<Rightarrow> (evs, Inl e)
      | (evs, Inr st') \<Rightarrow> (let r = send_all st' vs in (evs @ fst r, snd r)))"

text \<open>
  \<open>TelnetProtocolParser.__init__\<close> primes the generator, which stops at the first
  \<open>yield\<close>.  \<open>feed\<close> is \<open>for b in data: self._parser.send(b)\<close>: iterating a Python 3
  \<open>bytes\<close> object yields \<open>int\<close>s.
\<close>

definition TelnetProtocolParser_init :: parser_state where
  "TelnetProtocolParser_init = AtD"

definition TelnetProtocolParser_feed :: "parser_state \<Rightarrow> bytes \<Rightarrow> parser_state outcome" where
  "TelnetProtocolParser_feed st data = send_all st (map (\<lambda>b. PInt (uint b)) data)"

section \<open>formatted_text/ansi.py\<close>

subsection \<open>The string operations the module uses\<close>

text \<open>\<open>'\x1b'\<close> (also written \<open>'\033'\<close>), \<open>'\b'\<close>, \<open>'\001'\<close> and \<open>'\002'\<close>.\<close>

definition ESC :: char where "ESC = CHR 0x1B"
definition BS :: char where "BS = CHR 0x08"
definition SOH :: char where "SOH = CHR 0x01"
definition STX :: char where "STX = CHR 0x02"

text \<open>\<open>c.isalpha()\<close> for a code point below 256.\<close>

definition isalpha :: "char \<Rightarrow> bool" where
  "isalpha c =
     (let n = of_char c :: nat
      in (65 \<le> n \<and> n \<le> 90) \<or> (97 \<le> n \<and> n \<le> 122) \<or> n = 170 \<or> n = 181 \<or> n = 186
         \<or> (192 \<le> n \<and> n \<le> 214) \<or> (216 \<le> n \<and> n \<le> 246) \<or> (248 \<le> n \<and> n \<le> 255))"

text \<open>The decimal digits \<open>0\<close> .. \<open>9\<close> (the only decimal digits below 256).\<close>

definition isdecimal :: "char \<Rightarrow> bool" where
  "isdecimal c = (let n = of_char c :: nat in 48 \<le> n \<and> n \<le> 57)"

text \<open>\<open>s.split(sep)\<close> with a one-character separator: never an empty list.\<close>

fun split_on :: "char \<Rightarrow> string \<Rightarrow> string list" where
  "split_on sep [] = [[]]"
| "split_on sep (c # cs) =
     (if c = sep then [] # split_on sep cs
      else (let r = split_on sep cs in (c # hd r) # tl r))"

text \<open>
  \<open>int(s)\<close> on a string: white space around the literal is ignored, one sign is allowed,
  and the digits may be grouped by single underscores.  Anything else raises
  \<open>ValueError\<close>.  (The interpreter's configurable limit on the number of digits is not
  modelled.)
\<close>

definition int_space :: "char \<Rightarrow> bool" where
  "int_space c = (let n = of_char c :: nat in (9 \<le> n \<and> n \<le> 13) \<or> n = 32 \<or> n = 133 \<or> n = 160)"

fun digits_value :: "int \<Rightarrow> string \<Rightarrow> int" where
  "digits_value acc [] = acc"
| "digits_value acc (c # cs) = digits_value (10 * acc + (int (of_char c) - 48)) cs"

text \<open>\<open>grouped_digits s\<close>: \<open>s\<close> is one or more digits, then any number of groups \<open>_\<close> digits.\<close>

fun grouped_digits :: "string \<Rightarrow> bool" where
  "grouped_digits [] = False"
| "grouped_digits [c] = isdecimal c"
| "grouped_digits (c # d # cs) =
     (isdecimal c \<and> (if d = CHR ''_'' then grouped_digits cs else grouped_digits (d # cs)))"

definition py_int :: "string \<Rightarrow> error + int" where
  "py_int s =
     (let t = rev (dropWhile int_space (rev (dropWhile int_space s)));
          neg = (t \<noteq> [] \<and> hd t = CHR ''-'');
          body = (if t \<noteq> [] \<and> (hd t = CHR ''-'' \<or> hd t = CHR ''+'') then tl t else t)
      in if grouped_digits body
         then (let v = digits_value 0 (filter (\<lambda>c. c \<noteq> CHR ''_'') body)
               in Inr (if neg then - v else v))
         else Inl ValueError)"

subsection \<open>The \<open>ANSI\<close> object and its parser\<close>

text \<open>
  The attributes of an \<open>ANSI\<close> instance (the leading underscores of the private ones
  are dropped; \<open>value\<close> is \<open>ansi_value\<close>).
\<close>

record ansi =
  ansi_value :: string
  formatted_text :: "(string \<times> string) list"
  color :: "string option"
  bgcolor :: "string option"
  bold :: bool
  underline :: bool
  strike :: bool
  italic :: bool
  blink :: bool
  reverse :: bool
  hidden :: bool

text \<open>
  \<open>ANSI_COLOR_NAMES\<close> is read by \<open>_select_graphic_rendition\<close> but is not bound in
  \<open>ansi.py\<close> (the module neither defines nor imports it): the lookup raises
  \<open>NameError\<close>.  The binding is a parameter of the model, \<open>None\<close> for the module as it
  is and \<open>Some names\<close> for a module in which the name is bound to a list of strings,
  so that the results below do not depend on how the name is resolved.
\<close>

definition color_name :: "string list option \<Rightarrow> int \<Rightarrow> error + string" where
  "color_name ANSI_COLOR_NAMES i =
     (case ANSI_COLOR_NAMES of
        None \<Rightarrow> Inl NameError
      | Some names \<Rightarrow> if 0 \<le> i \<and> i < int (length names) then Inr (names ! nat i)
                      else Inl IndexError)"

text \<open>The body of the \<open>for attr in attrs.split(';')\<close> loop, after \<open>attr = int(attr)\<close>.\<close>

definition apply_attr :: "string list option \<Rightarrow> ansi \<Rightarrow> int \<Rightarrow> error + ansi" where
  "apply_attr ANSI_COLOR_NAMES self attr =
     (if attr = 0 then
        Inr (self\<lparr>color := None, bgcolor := None, bold := False, underline := False,
                  strike := False, italic := False, blink := False, reverse := False,
                  hidden := False\<rparr>)
      else if attr = 1 then Inr (self\<lparr>bold := True\<rparr>)
      else if attr = 3 then Inr (self\<lparr>italic := True\<rparr>)
      else if attr = 4 then Inr (self\<lparr>underline := True\<rparr>)
      else if attr = 5 then Inr (self\<lparr>blink := True\<rparr>)
      else if attr = 7 then Inr (self\<lparr>reverse := True\<rparr>)
      else if attr = 8 then Inr (self\<lparr>hidden := True\<rparr>)
      else if attr = 9 then Inr (self\<lparr>strike := True\<rparr>)
      else if 30 \<le> attr \<and> attr \<le> 37 then
        (case color_name ANSI_COLOR_NAMES (attr - 30) of
           Inl e \<Rightarrow> Inl e | Inr n \<Rightarrow> Inr (self\<lparr>color := Some (''ansi'' @ n)\<rparr>))
      else if 40 \<le> attr \<and> attr \<le> 47 then
        (case color_name ANSI_COLOR_NAMES (attr - 40) of
           Inl e \<Rightarrow> Inl e | Inr n \<Rightarrow> Inr (self\<lparr>bgcolor := Some (''ansi'' @ n)\<rparr>))
      else if 90 \<le> attr \<and> attr \<le> 97 then
        (case color_name ANSI_COLOR_NAMES (attr - 90) of
           Inl e \<Rightarrow> Inl e | Inr n \<Rightarrow> Inr (self\<lparr>color := Some (''ansibright'' @ n)\<rparr>))
      else if 100 \<le> attr \<and> attr \<le> 107 then
        (case color_name ANSI_COLOR_NAMES (attr - 100) of
           Inl e \<Rightarrow> Inl e | Inr n \<Rightarrow> Inr (self\<lparr>bgcolor := Some (''ansibright'' @ n)\<rparr>))
      else Inr self)"

fun apply_attrs :: "string list option \<Rightarrow> ansi \<Rightarrow> string list \<Rightarrow> error + ansi" where
  "apply_attrs ANSI_COLOR_NAMES self [] = Inr self"
| "apply_attrs ANSI_COLOR_NAMES self (attr # rest) =
     (if attr = [] then apply_attrs ANSI_COLOR_NAMES self rest
      else (case py_int attr of
              Inl e \<Rightarrow> Inl e
            | Inr n \<Rightarrow> (case apply_attr ANSI_COLOR_NAMES self n of
                          Inl e \<Rightarrow> Inl e
                        | Inr self' \<Rightarrow> apply_attrs ANSI_COLOR_NAMES self' rest)))"

definition select_graphic_rendition :: "string list option \<Rightarrow> ansi \<Rightarrow> string \<Rightarrow> error + ansi" where
  "select_graphic_rendition ANSI_COLOR_NAMES self attrs =
     (let attrs = (if attrs \<noteq> [] \<and> hd attrs = CHR ''['' \<and> last attrs = CHR ''m''
                   then butlast (tl attrs) else attrs)
      in apply_attrs ANSI_COLOR_NAMES self (split_on CHR '';'' attrs))"

text \<open>\<open>' '.join(parts)\<close>.\<close>

fun join_space :: "string list \<Rightarrow> string" where
  "join_space [] = []"
| "join_space [p] = p"
| "join_space (p # ps) = p @ '' '' @ join_space ps"

definition create_style_string :: "ansi \<Rightarrow> string" where
  "create_style_string self =
     join_space
       ((case color self of Some c \<Rightarrow> (if c \<noteq> [] then [c] else []) | None \<Rightarrow> [])
        @ (case bgcolor self of Some c \<Rightarrow> (if c \<noteq> [] then [''bg:'' @ c] else []) | None \<Rightarrow> [])
        @ (if bold self then [''bold''] else [])
        @ (if underline self then [''underline''] else [])
        @ (if italic self then [''italic''] else [])
        @ (if blink self then [''blink''] else [])
        @ (if reverse self then [''reverse''] else [])
        @ (if hidden self then [''hidden''] else [])
        @ (if strike self then [''strike''] else []))"

text \<open>
  The local variables of the generator \<open>_parse_corot\<close>, which is suspended at its only
  \<open>yield\<close> between two \<open>send\<close>s.  (\<open>text\<close> is \<open>text_run\<close>.)  \<open>formatted_text\<close> is an alias
  of \<open>self._formatted_text\<close>, so the appends go to the object.
\<close>

record corot =
  style :: string
  text_run :: string
  in_escape_sequence :: bool
  escape_sequence :: string
  zero_width_escape_sequence :: bool

definition corot_start :: corot where
  "corot_start = \<lparr>style = [], text_run = [], in_escape_sequence = False,
                  escape_sequence = [], zero_width_escape_sequence = False\<rparr>"

text \<open>One \<open>parser.send(char)\<close>: one pass through the body of \<open>while True\<close>.\<close>

definition parse_corot_send ::
  "string list option \<Rightarrow> ansi \<times> corot \<Rightarrow> char \<Rightarrow> error + ansi \<times> corot" where
  "parse_corot_send ANSI_COLOR_NAMES st char =
     (let self = fst st; fr = snd st in
      if in_escape_sequence fr then
        (let fr = fr\<lparr>escape_sequence := escape_sequence fr @ [char]\<rparr> in
         if isalpha char \<or> char = CHR ''~'' then
           (case select_graphic_rendition ANSI_COLOR_NAMES self (escape_sequence fr) of
              Inl e \<Rightarrow> Inl e
            | Inr self' \<Rightarrow> Inr (self', fr\<lparr>in_escape_sequence := False, escape_sequence := []\<rparr>))
         else Inr (self, fr))
      else if zero_width_escape_sequence fr then
        (if char = STX then
           Inr (self\<lparr>formatted_text :=
                       formatted_text self @ [(''[ZeroWidthEscape]'', text_run fr)]\<rparr>,
                fr\<lparr>zero_width_escape_sequence := False, text_run := []\<rparr>)
         else Inr (self, fr\<lparr>text_run := text_run fr @ [char]\<rparr>))
      else if char = SOH then
        (if text_run fr \<noteq> [] then
           Inr (self\<lparr>formatted_text := formatted_text self @ [(style fr, text_run fr)]\<rparr>,
                fr\<lparr>text_run := [], zero_width_escape_sequence := True\<rparr>)
         else Inr (self, fr\<lparr>zero_width_escape_sequence := True\<rparr>))
      else if char = ESC then
        (if text_run fr \<noteq> [] then
           Inr (self\<lparr>formatted_text := formatted_text self @ [(style fr, text_run fr)]\<rparr>,
                fr\<lparr>text_run := [], in_escape_sequence := True\<rparr>)
         else Inr (self, fr\<lparr>in_escape_sequence := True\<rparr>))
      else Inr (self, fr\<lparr>text_run := text_run fr @ [char]\<rparr>))"

text \<open>\<open>for c in value: parser.send(c)\<close>; an exception ends the loop.\<close>

fun parse_corot_feed ::
  "string list option \<Rightarrow> ansi \<times> corot \<Rightarrow> string \<Rightarrow> error + ansi \<times> corot" where
  "parse_corot_feed ANSI_COLOR_NAMES st [] = Inr st"
| "parse_corot_feed ANSI_COLOR_NAMES st (c # cs) =
     (case parse_corot_send ANSI_COLOR_NAMES st c of
        Inl e \<Rightarrow> Inl e
      | Inr st' \<Rightarrow> parse_corot_feed ANSI_COLOR_NAMES st' cs)"

definition ansi_new :: "string \<Rightarrow> ansi" where
  "ansi_new v = \<lparr>ansi_value = v, formatted_text = [], color = None, bgcolor = None,
                 bold = False, underline = False, strike = False, italic = False,
                 blink = False, reverse = False, hidden = False\<rparr>"

text \<open>
  \<open>ANSI.__init__\<close>.  The generator is a local of the constructor: when the loop over
  \<open>value\<close> ends it is dropped while still suspended at its \<open>yield\<close>, so the statements
  after \<open>while True\<close> never run.
\<close>

definition ANSI_init :: "string list option \<Rightarrow> string \<Rightarrow> error + ansi" where
  "ANSI_init ANSI_COLOR_NAMES v =
     (case parse_corot_feed ANSI_COLOR_NAMES (ansi_new v, corot_start) v of
        Inl e \<Rightarrow> Inl e
      | Inr st \<Rightarrow> Inr (fst st))"

definition pt_formatted_text :: "ansi \<Rightarrow> (string \<times> string) list" where
  "pt_formatted_text self = formatted_text self"

subsection \<open>\<open>ansi_escape\<close>, \<open>format\<close> and \<open>%\<close>\<close>

text \<open>\<open>s.replace(old, new)\<close> with a one-character \<open>old\<close>.\<close>

fun replace_char :: "char \<Rightarrow> string \<Rightarrow> string \<Rightarrow> string" where
  "replace_char old new [] = []"
| "replace_char old new (c # cs) =
     (if c = old then new @ replace_char old new cs else c # replace_char old new cs)"

text \<open>
  An argument of \<open>format\<close> or \<open>%\<close>: a \<open>str\<close>, or any other object, of which only the
  result of \<open>str(...)\<close> matters.
\<close>

datatype fmt_arg = StrArg string | ObjArg string

text \<open>\<open>if not isinstance(text, str): text = str(text)\<close>.\<close>

fun as_str :: "fmt_arg \<Rightarrow> string" where
  "as_str (StrArg text) = text"
| "as_str (ObjArg str_of_text) = str_of_text"

definition ansi_escape :: "fmt_arg \<Rightarrow> string" where
  "ansi_escape text = replace_char BS ''?'' (replace_char ESC ''?'' (as_str text))"

text \<open>
  \<open>str.format\<close> and \<open>str.__mod__\<close> are Python built-ins; they are parameters
  (\<open>str_format\<close>, \<open>str_mod\<close>) of the model, which may return any string or raise.
\<close>

definition ANSI_format ::
  "(string \<Rightarrow> string list \<Rightarrow> (string \<times> string) list \<Rightarrow> error + string) \<Rightarrow> string list option
     \<Rightarrow> ansi \<Rightarrow> fmt_arg list \<Rightarrow> (string \<times> fmt_arg) list \<Rightarrow> error + ansi" where
  "ANSI_format str_format ANSI_COLOR_NAMES self args kwargs =
     (let escaped_args = map ansi_escape args;
          escaped_kwargs = map (\<lambda>(k, v). (k, ansi_escape v)) kwargs
      in case str_format (ansi_value self) escaped_args escaped_kwargs of
           Inl e \<Rightarrow> Inl e
         | Inr s \<Rightarrow> ANSI_init ANSI_COLOR_NAMES s)"

text \<open>The right operand of \<open>%\<close>: a tuple, or a single object that is wrapped in one.\<close>

datatype mod_value = TupleValue "fmt_arg list" | SingleValue fmt_arg

definition ANSI_mod ::
  "(string \<Rightarrow> string list \<Rightarrow> error + string) \<Rightarrow> string list option
     \<Rightarrow> ansi \<Rightarrow> mod_value \<Rightarrow> error + ansi" where
  "ANSI_mod str_mod ANSI_COLOR_NAMES self v =
     (let v = (case v of TupleValue xs \<Rightarrow> xs | SingleValue x \<Rightarrow> [x]);
          v = map ansi_escape v
      in case str_mod (ansi_value self) v of
           Inl e \<Rightarrow> Inl e
         | Inr s \<Rightarrow> ANSI_init ANSI_COLOR_NAMES s)"

section \<open>input/vt100_parser.py\<close>

text \<open>
  \<open>Keys\<close> (module \<open>keys\<close>) is an enumeration; the parser names two of its members,
  the properties below two more, and \<open>OtherKey\<close> stands for all the others.
  \<open>ANSI_SEQUENCES\<close> (module \<open>ansi_escape_sequences\<close>) is a dictionary from strings to a
  key or a tuple of keys.  Neither module is part of the sources at hand, so the
  table is a parameter \<open>ANSI_SEQUENCES\<close> of every function that reads it: an
  association list, looked up with \<open>map_of\<close>.
\<close>

datatype Keys = Up | Escape | CPRResponse | Vt100MouseEvent | OtherKey string

text \<open>
  The first argument of \<open>_call_handler\<close>: a key, a one-character string, or a tuple.
  A \<open>KeyPress\<close> holds such a key and the text that produced it.
\<close>

datatype keyarg = KeyOf Keys | StrOf string | TupleOf "keyarg list"

datatype KeyPress = KeyPress (press_key: keyarg) (press_data: string)

text \<open>
  Truth value of a table entry, as \<open>any(...)\<close> tests it: a tuple is true when it is
  not empty, a string when it is not empty, a member of the enumeration always.
\<close>

fun truthy :: "keyarg \<Rightarrow> bool" where
  "truthy (KeyOf k) = True"
| "truthy (StrOf s) = (s \<noteq> [])"
| "truthy (TupleOf ks) = (ks \<noteq> [])"

subsection \<open>The four regular expressions\<close>

text \<open>
  Each is anchored at both ends (\<open>^\<close> ... \<open>\\Z\<close>) and starts with the two characters
  \<open>ESC [\<close>.  \<open>\\d\<close> is a decimal digit and \<open>.\<close> any character but a newline.
\<close>

definition digit_or_semicolon :: "char \<Rightarrow> bool" where
  "digit_or_semicolon c = (isdecimal c \<or> c = CHR '';'')"

definition not_newline :: "char \<Rightarrow> bool" where
  "not_newline c = (c \<noteq> CHR 0x0A)"

text \<open>The part of \<open>s\<close> after \<open>ESC [\<close>, if \<open>s\<close> starts with it.\<close>

fun after_csi :: "string \<Rightarrow> string option" where
  "after_csi (a # b # rest) = (if a = ESC \<and> b = CHR ''['' then Some rest else None)"
| "after_csi _ = None"

text \<open>\<open>_cpr_response_re\<close>: \<open>\\d+;\\d+R\<close>.\<close>

definition cpr_response_re :: "string \<Rightarrow> bool" where
  "cpr_response_re s =
     (case after_csi s of
        None \<Rightarrow> False
      | Some r \<Rightarrow>
          (let rows = takeWhile isdecimal r; r1 = dropWhile isdecimal r
           in rows \<noteq> [] \<and> r1 \<noteq> [] \<and> hd r1 = CHR '';'' \<and>
              (let cols = takeWhile isdecimal (tl r1); r2 = dropWhile isdecimal (tl r1)
               in cols \<noteq> [] \<and> r2 = ''R'')))"

text \<open>\<open>_mouse_event_re\<close>: \<open>(<?[\\d;]+[mM]|M...)\<close>.\<close>

definition mouse_event_re :: "string \<Rightarrow> bool" where
  "mouse_event_re s =
     (case after_csi s of
        None \<Rightarrow> False
      | Some r \<Rightarrow>
          (let r' = (if r \<noteq> [] \<and> hd r = CHR ''<'' then tl r else r);
               params = takeWhile digit_or_semicolon r';
               final = dropWhile digit_or_semicolon r'
           in params \<noteq> [] \<and> (final = ''m'' \<or> final = ''M''))
          \<or> (length r = 4 \<and> hd r = CHR ''M'' \<and> list_all not_newline (tl r)))"

text \<open>\<open>_cpr_response_prefix_re\<close>: \<open>[\\d;]*\<close>.\<close>

definition cpr_response_prefix_re :: "string \<Rightarrow> bool" where
  "cpr_response_prefix_re s =
     (case after_csi s of None \<Rightarrow> False | Some r \<Rightarrow> list_all digit_or_semicolon r)"

text \<open>\<open>_mouse_event_prefix_re\<close>: \<open>(<?[\\d;]*|M.{0,2})\<close>.\<close>

definition mouse_event_prefix_re :: "string \<Rightarrow> bool" where
  "mouse_event_prefix_re s =
     (case after_csi s of
        None \<Rightarrow> False
      | Some r \<Rightarrow>
          list_all digit_or_semicolon (if r \<noteq> [] \<and> hd r = CHR ''<'' then tl r else r)
          \<or> (r \<noteq> [] \<and> hd r = CHR ''M'' \<and> length r \<le> 3 \<and> list_all not_newline (tl r)))"

subsection \<open>Matching\<close>

text \<open>\<open>k.startswith(prefix)\<close>.\<close>

definition startswith :: "string \<Rightarrow> string \<Rightarrow> bool" where
  "startswith k p = (take (length p) k = p)"

text \<open>
  \<open>_IsPrefixOfLongerMatchCache.__missing__\<close>.  The cache only remembers the results of
  this function, so a lookup in it is a call.
\<close>

definition is_prefix_of_longer_match :: "(string \<times> keyarg) list \<Rightarrow> string \<Rightarrow> bool" where
  "is_prefix_of_longer_match ANSI_SEQUENCES prefix =
     (if cpr_response_prefix_re prefix \<or> mouse_event_prefix_re prefix then True
      else list_ex (\<lambda>(k, v). startswith k prefix \<and> k \<noteq> prefix \<and> truthy v) ANSI_SEQUENCES)"

definition get_match :: "(string \<times> keyarg) list \<Rightarrow> string \<Rightarrow> keyarg option" where
  "get_match ANSI_SEQUENCES prefix =
     (case map_of ANSI_SEQUENCES prefix of
        Some v \<Rightarrow> Some v
      | None \<Rightarrow>
          if cpr_response_re prefix then Some (KeyOf CPRResponse)
          else if mouse_event_re prefix then Some (KeyOf Vt100MouseEvent)
          else None)"

text \<open>
  \<open>_call_handler\<close>; the result is the list of \<open>KeyPress\<close> objects handed to
  \<open>feed_key_callback\<close>, in order.
\<close>

fun call_handler :: "keyarg \<Rightarrow> string \<Rightarrow> KeyPress list" where
  "call_handler (TupleOf ks) insert_text = concat (map (\<lambda>k. call_handler k insert_text) ks)"
| "call_handler k insert_text = (if insert_text \<noteq> [] then [KeyPress k insert_text] else [])"

subsection \<open>The parser generator\<close>

text \<open>
  \<open>_input_parser_generator\<close> has one \<open>yield\<close>.  \<open>loop_body\<close> is one iteration of
  \<open>while True\<close> from the comment "If we have some data" to the end of the iteration,
  entered with the current \<open>prefix\<close> and \<open>flush\<close> (and \<open>retry = False\<close>, which both
  branches before it establish); it returns the new \<open>prefix\<close>, the new \<open>retry\<close> and
  the key presses it has passed to the callback.
\<close>

definition loop_body ::
  "(string \<times> keyarg) list \<Rightarrow> string \<Rightarrow> bool \<Rightarrow> string \<times> bool \<times> KeyPress list" where
  "loop_body ANSI_SEQUENCES prefix flush =
     (let r =
        (if prefix \<noteq> [] then
           (let is_prefix_of_longer_match = is_prefix_of_longer_match ANSI_SEQUENCES prefix;
                match = get_match ANSI_SEQUENCES prefix;
                is_prefix_of_longer_match = (if flush then False else is_prefix_of_longer_match)
            in case match of
                 Some m \<Rightarrow> ([], False, call_handler m prefix)
               | None \<Rightarrow>
                   if is_prefix_of_longer_match \<and> \<not> flush then (prefix, True, [])
                   else (tl prefix, True, call_handler (StrOf [hd prefix]) [hd prefix]))
         else (prefix, False, []))
      in (fst r, (if flush \<and> fst r \<noteq> [] then True else fst (snd r)), snd (snd r)))"

text \<open>
  The generator from that point to its next suspension.  When an iteration ends with
  \<open>retry\<close> set, the next one resets \<open>flush\<close>, clears \<open>retry\<close> and goes on without
  reading; otherwise it stops at \<open>yield\<close> and \<open>send\<close> returns.  \<open>None\<close> is a \<open>send\<close>
  that never returns.
\<close>

partial_function (option) run_to_yield ::
  "(string \<times> keyarg) list \<Rightarrow> string \<Rightarrow> bool \<Rightarrow> KeyPress list \<Rightarrow> (string \<times> KeyPress list) option" where
  "run_to_yield ANSI_SEQUENCES prefix flush out =
     (let r = loop_body ANSI_SEQUENCES prefix flush
      in if fst (snd r) then run_to_yield ANSI_SEQUENCES (fst r) False (out @ snd (snd r))
         else Some (fst r, out @ snd (snd r)))"

text \<open>What is sent into the generator: a character, or the \<open>_Flush\<close> marker.\<close>

datatype parser_input = Chr char | Flush

text \<open>
  A \<open>Vt100Parser\<close>: the suspended generator, which is its \<open>prefix\<close> (the other locals
  are reset before the \<open>yield\<close>), and the calls of \<open>feed_key_callback\<close> so far.
\<close>

record Vt100Parser =
  input_parser :: string
  key_presses :: "KeyPress list"

text \<open>\<open>self._input_parser.send(c)\<close>.\<close>

definition input_parser_send ::
  "(string \<times> keyarg) list \<Rightarrow> Vt100Parser \<Rightarrow> parser_input \<Rightarrow> Vt100Parser option" where
  "input_parser_send ANSI_SEQUENCES p c =
     (case (case c of
              Flush \<Rightarrow> run_to_yield ANSI_SEQUENCES (input_parser p) True []
            | Chr ch \<Rightarrow> run_to_yield ANSI_SEQUENCES (input_parser p @ [ch]) False [])
      of None \<Rightarrow> None
       | Some (prefix, out) \<Rightarrow>
           Some (p\<lparr>input_parser := prefix, key_presses := key_presses p @ out\<rparr>))"

text \<open>
  \<open>__init__\<close> calls \<open>self.reset()\<close>, a method the class does not define in this source;
  it is taken to start the generator (\<open>_start_parser\<close>), which runs to its first
  \<open>yield\<close> with an empty prefix.
\<close>

definition Vt100Parser_init :: Vt100Parser where
  "Vt100Parser_init = \<lparr>input_parser = [], key_presses = []\<rparr>"

fun Vt100Parser_feed ::
  "(string \<times> keyarg) list \<Rightarrow> Vt100Parser \<Rightarrow> string \<Rightarrow> Vt100Parser option" where
  "Vt100Parser_feed ANSI_SEQUENCES p [] = Some p"
| "Vt100Parser_feed ANSI_SEQUENCES p (c # cs) =
     (case input_parser_send ANSI_SEQUENCES p (Chr c) of
        None \<Rightarrow> None
      | Some p' \<Rightarrow> Vt100Parser_feed ANSI_SEQUENCES p' cs)"

definition Vt100Parser_flush ::
  "(string \<times> keyarg) list \<Rightarrow> Vt100Parser \<Rightarrow> Vt100Parser option" where
  "Vt100Parser_flush ANSI_SEQUENCES p = input_parser_send ANSI_SEQUENCES p Flush"

definition feed_and_flush ::
  "(string \<times> keyarg) list \<Rightarrow> Vt100Parser \<Rightarrow> string \<Rightarrow> Vt100Parser option" where
  "feed_and_flush ANSI_SEQUENCES p data =
     (case Vt100Parser_feed ANSI_SEQUENCES p data of
        None \<Rightarrow> None
      | Some p' \<Rightarrow> Vt100Parser_flush ANSI_SEQUENCES p')"

text \<open>Feeding a list of chunks, one \<open>feed\<close> call each.\<close>

fun feed_chunks ::
  "(string \<times> keyarg) list \<Rightarrow> Vt100Parser \<Rightarrow> string list \<Rightarrow> Vt100Parser option" where
  "feed_chunks ANSI_SEQUENCES p [] = Some p"
| "feed_chunks ANSI_SEQUENCES p (chunk # chunks) =
     (case Vt100Parser_feed ANSI_SEQUENCES p chunk of
        None \<Rightarrow> None
      | Some p' \<Rightarrow> feed_chunks ANSI_SEQUENCES p' chunks)"

section \<open>layout/scrollable_pane.py\<close>

text \<open>
  \<open>ScrollOffsets\<close>, \<open>WritePosition\<close> and \<open>Point\<close> come from modules that are not part of
  the sources at hand; the pane reads the attributes below (\<open>top\<close>, \<open>bottom\<close>; \<open>x\<close>,
  \<open>y\<close>), all Python integers.
\<close>

record ScrollOffsets =
  offset_top :: int
  offset_bottom :: int

record WritePosition =
  xpos :: int
  ypos :: int
  width :: int
  height :: int

record Point =
  point_x :: int
  point_y :: int

text \<open>
  The attributes of a \<open>ScrollablePane\<close> that take part in scrolling.  The filters
  \<open>keep_cursor_visible\<close> and \<open>keep_focused_window_visible\<close> are represented by the value
  they return when called.
\<close>

record ScrollablePane =
  scroll_offsets :: ScrollOffsets
  keep_cursor_visible :: bool
  keep_focused_window_visible :: bool
  max_available_height :: int
  vertical_scroll :: int

definition MAX_AVAILABLE_HEIGHT :: int where
  "MAX_AVAILABLE_HEIGHT = 10000"

text \<open>\<open>__init__\<close>, with \<open>None\<close> for an argument that is left at its default.\<close>

definition ScrollablePane_init ::
  "ScrollOffsets option \<Rightarrow> bool option \<Rightarrow> bool option \<Rightarrow> int option \<Rightarrow> ScrollablePane" where
  "ScrollablePane_init scroll_offsets_arg keep_cursor_visible_arg
       keep_focused_window_visible_arg max_available_height_arg =
     \<lparr>scroll_offsets = (case scroll_offsets_arg of
                          Some so \<Rightarrow> so
                        | None \<Rightarrow> \<lparr>offset_top = 1, offset_bottom = 1\<rparr>),
      keep_cursor_visible = (case keep_cursor_visible_arg of Some b \<Rightarrow> b | None \<Rightarrow> True),
      keep_focused_window_visible =
        (case keep_focused_window_visible_arg of Some b \<Rightarrow> b | None \<Rightarrow> True),
      max_available_height =
        (case max_available_height_arg of Some h \<Rightarrow> h | None \<Rightarrow> MAX_AVAILABLE_HEIGHT),
      vertical_scroll = 0\<rparr>"

text \<open>The first rule of \<open>_make_window_visible\<close>: keep the cursor visible.\<close>

definition scroll_for_cursor :: "ScrollablePane \<Rightarrow> int \<Rightarrow> int \<Rightarrow> int \<Rightarrow> ScrollablePane" where
  "scroll_for_cursor self visible_height virtual_height cursor_y =
     (if keep_cursor_visible self then
        (let top = offset_top (scroll_offsets self);
             bottom = offset_bottom (scroll_offsets self)
         in if cursor_y < vertical_scroll self + top then
              self\<lparr>vertical_scroll := max 0 (cursor_y - top)\<rparr>
            else if cursor_y \<ge> vertical_scroll self + visible_height - bottom then
              self\<lparr>vertical_scroll :=
                     min (virtual_height - visible_height)
                         (cursor_y - visible_height + bottom + 1)\<rparr>
            else self)
      else self)"

text \<open>The second rule: keep the window at \<open>visible_win_write_pos\<close> visible.\<close>

definition scroll_for_window :: "ScrollablePane \<Rightarrow> int \<Rightarrow> WritePosition \<Rightarrow> ScrollablePane" where
  "scroll_for_window self visible_height visible_win_write_pos =
     (if keep_focused_window_visible self then
        (let win_top = ypos visible_win_write_pos;
             win_bottom = ypos visible_win_write_pos + height visible_win_write_pos
         in if win_top < vertical_scroll self then
              self\<lparr>vertical_scroll := win_top\<rparr>
            else if win_bottom > vertical_scroll self + visible_height then
              self\<lparr>vertical_scroll := win_bottom - visible_height\<rparr>
            else self)
      else self)"

definition make_window_visible ::
  "ScrollablePane \<Rightarrow> int \<Rightarrow> int \<Rightarrow> WritePosition \<Rightarrow> Point option \<Rightarrow> ScrollablePane" where
  "make_window_visible self visible_height virtual_height visible_win_write_pos cursor_position =
     (case cursor_position of
        None \<Rightarrow> self
      | Some p \<Rightarrow>
          scroll_for_window
            (scroll_for_cursor self visible_height virtual_height (point_y p))
            visible_height visible_win_write_pos)"

text \<open>
  One render pass, \<open>write_to_screen\<close>, as far as \<open>vertical_scroll\<close> is concerned.  The
  content is drawn on a temporary screen by classes that are not part of the sources
  at hand; what the pane reads back from it are the parameters \<open>temp_screen_height\<close>
  (\<open>temp_screen.height\<close>) and \<open>cursor_position\<close>
  (\<open>temp_screen.get_cursor_position(self.content)\<close>).  Copying cells, mouse handlers and
  write positions and drawing the scroll bar read \<open>vertical_scroll\<close> but do not assign
  it.  The last statement passes the pane's own \<open>write_position\<close> as
  \<open>visible_win_write_pos\<close>.
\<close>

definition write_to_screen ::
  "ScrollablePane \<Rightarrow> WritePosition \<Rightarrow> int \<Rightarrow> Point option \<Rightarrow> ScrollablePane" where
  "write_to_screen self write_position temp_screen_height cursor_position =
     (let visible_height = min (height write_position) (temp_screen_height - vertical_scroll self)
      in make_window_visible self visible_height temp_screen_height write_position
           cursor_position)"

section \<open>eventloop/async_generator.py\<close>

text \<open>
  What travels through the queue: an item of the iterable, or the \<open>_Done\<close> marker.
\<close>

datatype 'a queued = Item 'a | Done

text \<open>\<open>Queue(maxsize)\<close> is full when \<open>maxsize > 0\<close> and it holds \<open>maxsize\<close> entries.\<close>

definition queue_full :: "int \<Rightarrow> 'a queued list \<Rightarrow> bool" where
  "queue_full maxsize queue = (0 < maxsize \<and> maxsize \<le> int (length queue))"

text \<open>
  The \<open>for\<close> loop of \<open>producer\<close>, on the items the iterable yields.  A
  \<open>queue.put(item, block=False)\<close> on a full queue raises \<open>Full\<close>; the handler calls
  \<open>time.sleep\<close>, and \<open>time\<close> is not bound in the module, so the handler raises
  \<open>NameError\<close> and the loop is left.  The result is the queue and the pending exception.
\<close>

fun producer_loop :: "int \<Rightarrow> 'a list \<Rightarrow> 'a queued list \<Rightarrow> 'a queued list \<times> error option" where
  "producer_loop maxsize [] queue = (queue, None)"
| "producer_loop maxsize (item # rest) queue =
     (if queue_full maxsize queue then (queue, Some NameError)
      else producer_loop maxsize rest (queue @ [Item item]))"

text \<open>
  \<open>producer\<close>: the loop, then \<open>finally: queue.put(_Done(), block=True)\<close>.  Nothing takes
  entries out of the queue while \<open>producer\<close> runs (see below), so a blocking \<open>put\<close> on
  a full queue never returns: that is the result \<open>None\<close>.
\<close>

definition producer :: "int \<Rightarrow> 'a list \<Rightarrow> ('a queued list \<times> error option) option" where
  "producer maxsize items =
     (let r = producer_loop maxsize items []
      in if queue_full maxsize (fst r) then None
         else Some (fst r @ [Done], snd r))"

text \<open>
  The consumer loop \<open>item = await loop.run_in_executor(None, queue.get)\<close>: the items
  yielded until \<open>_Done\<close> is taken out.  \<open>queue.get\<close> on an empty queue that nobody fills
  never returns.
\<close>

fun consume :: "'a queued list \<Rightarrow> 'a list option" where
  "consume [] = None"
| "consume (Done # queue) = Some []"
| "consume (Item x # queue) = (case consume queue of None \<Rightarrow> None | Some xs \<Rightarrow> Some (x # xs))"

text \<open>
  What a consumer of the asynchronous generator observes: it never gets an answer, or
  an exception, or the yielded items followed by the end of the iteration.
\<close>

datatype 'a observed = Hangs | Raises error | Yields "'a list"

text \<open>
  \<open>generator_to_async_generator\<close>.  The statement
  \<open>await run_in_executor_with_context(producer)\<close> waits for \<open>producer\<close> to return before
  the consumer loop is entered, so the two run one after the other; an exception of
  \<open>producer\<close> is raised by the \<open>await\<close>.
\<close>

definition generator_to_async_generator :: "'a list \<Rightarrow> int \<Rightarrow> 'a observed" where
  "generator_to_async_generator items buffer_size =
     (case producer buffer_size items of
        None \<Rightarrow> Hangs
      | Some (queue, Some e) \<Rightarrow> Raises e
      | Some (queue, None) \<Rightarrow>
          (case consume queue of None \<Rightarrow> Hangs | Some xs \<Rightarrow> Yields xs))"

definition DEFAULT_BUFFER_SIZE :: int where
  "DEFAULT_BUFFER_SIZE = 1000"

section \<open>Properties of the Telnet parser\<close>

lemmas telnet_consts =
  int2byte_def IAC_def DO_def DONT_def SB_def WILL_def WONT_def SE_def ECHO_def
  NAWS_def SUPPRESS_GO_AHEAD_def TTYPE_def IS_def

subsection \<open>What \<open>feed\<close> does\<close>

lemma send_int_AtD:
  "send AtD (PInt (uint (b :: 8 word))) = ([DataReceived (PBytes [b])], Inr AtD)"
proof -
  have "uint b < 256" using uint_bounded [of b] by simp
  then show ?thesis by (simp add: telnet_consts)
qed

lemma send_all_ints_AtD:
  "send_all AtD (map (\<lambda>b. PInt (uint (b :: 8 word))) data)
     = (map (\<lambda>b. DataReceived (PBytes [b])) data, Inr AtD)"
  by (induction data) (simp_all add: send_int_AtD del: send.simps)

lemma feed_passes_everything_through:
  "TelnetProtocolParser_feed TelnetProtocolParser_init data = (map (\<lambda>b. DataReceived (PBytes [b])) data, Inr AtD)"
  by (simp add: TelnetProtocolParser_feed_def TelnetProtocolParser_init_def send_all_ints_AtD)

text \<open>
  C1.  The claim: feeding \<open>IAC DO X\<close> produces exactly one reply, \<open>IAC WILL X\<close> or
  \<open>IAC WONT X\<close>, and no plain data for the command's bytes (and likewise for WILL,
  DONT, WONT).  The code does not do this: \<open>feed\<close> sends \<open>int\<close>s into the coroutine,
  the coroutine compares them with the \<open>bytes\<close> constants, no comparison succeeds, and
  for every option byte \<open>x\<close> and each of the four commands the three bytes come back
  as three plain data callbacks, with no reply.
\<close>

theorem feed_IAC_command_is_plain_data:
  "TelnetProtocolParser_feed TelnetProtocolParser_init [255, 253, x]
     = ([DataReceived (PBytes [255]), DataReceived (PBytes [253]), DataReceived (PBytes [x])],
        Inr AtD)
   \<and> TelnetProtocolParser_feed TelnetProtocolParser_init [255, 251, x]
     = ([DataReceived (PBytes [255]), DataReceived (PBytes [251]), DataReceived (PBytes [x])],
        Inr AtD)
   \<and> TelnetProtocolParser_feed TelnetProtocolParser_init [255, 254, x]
     = ([DataReceived (PBytes [255]), DataReceived (PBytes [254]), DataReceived (PBytes [x])],
        Inr AtD)
   \<and> TelnetProtocolParser_feed TelnetProtocolParser_init [255, 252, x]
     = ([DataReceived (PBytes [255]), DataReceived (PBytes [252]), DataReceived (PBytes [x])],
        Inr AtD)"
  by (simp add: feed_passes_everything_through)


text \<open>
  C7.  The claim: the payload handed to the negotiation handler is the bytes between
  \<open>IAC SB\<close> and \<open>IAC SE\<close>, with every \<open>IAC IAC\<close> pair decoded as one byte 255.  The code
  does not do this.  For every payload, \<open>feed\<close> hands nothing to \<open>negotiate\<close>: all the
  bytes of \<open>IAC SB payload IAC SE\<close> are delivered as plain data.  The sub-negotiation
  branch of the coroutine, entered only when one-byte \<open>bytes\<close> objects are sent, keeps
  both bytes of an \<open>IAC IAC\<close> pair and then fails in \<open>bytes(subnegotiation)\<close>.
\<close>

theorem feed_subnegotiation_is_plain_data:
  "TelnetProtocolParser_feed TelnetProtocolParser_init ([255, 250] @ payload @ [255, 240])
     = (map (\<lambda>b. DataReceived (PBytes [b])) ([255, 250] @ payload @ [255, 240]), Inr AtD)
   \<and> send_all AtD [IAC, SB, TTYPE, IS, IAC, IAC]
     = ([], Inr (AtSubD3 [TTYPE, IS, IAC, IAC]))
   \<and> send_all AtD [IAC, SB, TTYPE, IS, IAC, IAC, IAC, SE] = ([], Inl TypeError)"
proof -
  have "send_all AtD [IAC, SB, TTYPE, IS, IAC, IAC] = ([], Inr (AtSubD3 [TTYPE, IS, IAC, IAC]))"
    by (simp add: telnet_consts)
  moreover have "send_all AtD [IAC, SB, TTYPE, IS, IAC, IAC, IAC, SE] = ([], Inl TypeError)"
    by (simp add: telnet_consts)
  ultimately show ?thesis
    by (simp only: feed_passes_everything_through simp_thms)
qed

text \<open>
  C9.  The claim: feeding \<open>IAC SB NAWS 0 80 0 24 IAC SE\<close> invokes the window-size
  callback once, with (rows, columns) = (24, 80).  The code does not do this: the nine
  bytes arrive as nine plain data callbacks and the size callback is not invoked.
  The handler itself would report (24, 80) if the payload reached it, and logs a
  payload of another length without a callback.
\<close>

theorem feed_NAWS_is_plain_data:
  "TelnetProtocolParser_feed TelnetProtocolParser_init [255, 250, 31, 0, 80, 0, 24, 255, 240]
     = (map (\<lambda>b. DataReceived (PBytes [b])) [255, 250, 31, 0, 80, 0, 24, 255, 240], Inr AtD)
   \<and> negotiate [31, 0, 80, 0, 24]
     = [Logged Debug ''Negotiating: '' [PBytes [31, 0, 80, 0, 24]],
        Logged Debug ''Received window size: '' [PInt 80, PInt 24],
        SizeReceived 24 80]
   \<and> negotiate [31, 0, 80, 0]
     = [Logged Debug ''Negotiating: '' [PBytes [31, 0, 80, 0]],
        Logged Warning ''Invalid NAWS data received: '' [PBytes [0, 80, 0]]]"
proof -
  have "negotiate [31, 0, 80, 0, 24]
     = [Logged Debug ''Negotiating: '' [PBytes [31, 0, 80, 0, 24]],
        Logged Debug ''Received window size: '' [PInt 80, PInt 24],
        SizeReceived 24 80]"
    by (simp add: negotiate_def naws_def unpack_HH_def telnet_consts)
  moreover have "negotiate [31, 0, 80, 0]
     = [Logged Debug ''Negotiating: '' [PBytes [31, 0, 80, 0]],
        Logged Warning ''Invalid NAWS data received: '' [PBytes [0, 80, 0]]]"
    by (simp add: negotiate_def naws_def telnet_consts)
  ultimately show ?thesis
    by (simp only: feed_passes_everything_through simp_thms)
qed

section \<open>Properties of the ANSI decoder\<close>

lemmas ansi_eval =
  ANSI_init_def parse_corot_send_def select_graphic_rendition_def apply_attr_def
  color_name_def py_int_def ansi_new_def corot_start_def isalpha_def isdecimal_def
  int_space_def ESC_def BS_def SOH_def STX_def pt_formatted_text_def Let_def

text \<open>
  C2.  The claim: decoding \<open>"\x1b[31mred\x1b[0m plain"\<close> yields the two fragments
  (style containing \<open>ansired\<close>, \<open>"red"\<close>) and (\<open>""\<close>, \<open>" plain"\<close>).  The code does not do
  this.  As the module is, the first escape sequence reaches the unbound name
  \<open>ANSI_COLOR_NAMES\<close> and the constructor raises \<open>NameError\<close>.  Were the name bound to
  any list of strings, the constructor would raise \<open>IndexError\<close> or return the single
  fragment (\<open>""\<close>, \<open>"red"\<close>): the parser never assigns \<open>style\<close>, and the run \<open>" plain"\<close>,
  still buffered when the input ends, is never appended.
\<close>

theorem ANSI_red_plain_not_decoded:
  "ANSI_init None (ESC # ''[31mred'' @ ESC # ''[0m plain'') = Inl NameError
   \<and> (case ANSI_init (Some names) (ESC # ''[31mred'' @ ESC # ''[0m plain'') of
         Inl e \<Rightarrow> e = IndexError
       | Inr self \<Rightarrow> pt_formatted_text self = [('''', ''red'')])"
  by (simp add: ansi_eval)

text \<open>
  C8.  The claim: for every input string, feeding it to the VT100 parser and
  constructing the ANSI decoder from it complete without raising.  The decoder does
  not: every escape sequence that ends in a letter is handed to
  \<open>_select_graphic_rendition\<close>, which converts its parameters with \<open>int\<close>; for the
  cursor-up sequence \<open>ESC [ A\<close> this raises \<open>ValueError\<close>, whatever \<open>ANSI_COLOR_NAMES\<close> is.
\<close>

theorem ANSI_cursor_up_raises:
  "ANSI_init ANSI_COLOR_NAMES (ESC # ''[A'') = Inl ValueError"
  by (simp add: ansi_eval)

subsection \<open>Escaped arguments\<close>

lemma replace_char_single:
  "replace_char old [n] s = map (\<lambda>c. if c = old then n else c) s"
  by (induction s) simp_all

lemma ansi_escape_map:
  "ansi_escape a = map (\<lambda>c. if c = ESC \<or> c = BS then CHR ''?'' else c) (as_str a)"
  by (simp add: ansi_escape_def replace_char_single ESC_def BS_def)

lemma ansi_escape_no_ESC: "ESC \<notin> set (ansi_escape a)"
  by (auto simp: ansi_escape_map ESC_def)

lemma ansi_escape_idem: "ansi_escape (StrArg (ansi_escape a)) = ansi_escape a"
  by (simp add: ansi_escape_map ESC_def BS_def)

text \<open>
  A character other than \<open>ESC\<close>, read while the parser is not inside an escape
  sequence, changes nothing of the object but its list of fragments.
\<close>

lemma send_outside_escape:
  assumes "\<not> in_escape_sequence fr" and "c \<noteq> ESC"
  shows "\<exists>self' fr'. parse_corot_send n (self, fr) c = Inr (self', fr')
           \<and> \<not> in_escape_sequence fr' \<and> style fr' = style fr
           \<and> self' = self\<lparr>formatted_text := formatted_text self'\<rparr>"
  using assms by (simp add: parse_corot_send_def Let_def)

lemma feed_outside_escape:
  assumes "\<not> in_escape_sequence fr" and "ESC \<notin> set s"
  shows "\<exists>self' fr'. parse_corot_feed n (self, fr) s = Inr (self', fr')
           \<and> \<not> in_escape_sequence fr' \<and> style fr' = style fr
           \<and> self' = self\<lparr>formatted_text := formatted_text self'\<rparr>"
  using assms
proof (induction s arbitrary: self fr)
  case Nil
  then show ?case by simp
next
  case (Cons c s)
  from Cons.prems have c: "c \<noteq> ESC" and s: "ESC \<notin> set s" by auto
  from send_outside_escape [OF Cons.prems(1) c, of n self]
  obtain self1 fr1 where 1: "parse_corot_send n (self, fr) c = Inr (self1, fr1)"
    and 2: "\<not> in_escape_sequence fr1" and 3: "style fr1 = style fr"
    and 4: "self1 = self\<lparr>formatted_text := formatted_text self1\<rparr>" by blast
  from Cons.IH [OF 2 s, of self1]
  obtain self2 fr2 where 5: "parse_corot_feed n (self1, fr1) s = Inr (self2, fr2)"
    and 6: "\<not> in_escape_sequence fr2" and 7: "style fr2 = style fr1"
    and 8: "self2 = self1\<lparr>formatted_text := formatted_text self2\<rparr>" by blast
  have "self2 = self\<lparr>formatted_text := formatted_text self2\<rparr>"
    by (subst 8, subst 4) simp
  with 1 5 6 7 3 show ?case by simp
qed

text \<open>
  Every fragment the parser appends carries the local \<open>style\<close>, which stays empty, or
  the zero-width marker.
\<close>

lemma apply_attr_formatted_text:
  "apply_attr n self a = Inr self' \<Longrightarrow> formatted_text self' = formatted_text self"
  by (auto simp: apply_attr_def split: if_splits sum.splits)

lemma apply_attrs_formatted_text:
  "apply_attrs n self as = Inr self' \<Longrightarrow> formatted_text self' = formatted_text self"
proof (induction as arbitrary: self)
  case Nil
  then show ?case by simp
next
  case (Cons a as)
  then show ?case
    by (auto split: if_splits sum.splits dest: apply_attr_formatted_text)
qed

lemma select_graphic_rendition_formatted_text:
  "select_graphic_rendition n self s = Inr self' \<Longrightarrow> formatted_text self' = formatted_text self"
  unfolding select_graphic_rendition_def Let_def by (rule apply_attrs_formatted_text)

lemma send_plain_fragments:
  assumes "parse_corot_send n (self, fr) c = Inr (self', fr')"
    and "style fr = []"
    and "list_all (\<lambda>f. fst f = [] \<or> fst f = ''[ZeroWidthEscape]'') (formatted_text self)"
  shows "style fr' = []
         \<and> list_all (\<lambda>f. fst f = [] \<or> fst f = ''[ZeroWidthEscape]'') (formatted_text self')"
  using assms
  by (auto simp: parse_corot_send_def Let_def
      split: if_splits sum.splits dest: select_graphic_rendition_formatted_text)

lemma feed_plain_fragments:
  assumes "parse_corot_feed n st s = Inr st'"
    and "style (snd st) = []"
    and "list_all (\<lambda>f. fst f = [] \<or> fst f = ''[ZeroWidthEscape]'') (formatted_text (fst st))"
  shows "style (snd st') = []
         \<and> list_all (\<lambda>f. fst f = [] \<or> fst f = ''[ZeroWidthEscape]'') (formatted_text (fst st'))"
  using assms
proof (induction s arbitrary: st)
  case Nil
  then show ?case by simp
next
  case (Cons c s)
  then obtain st1 where 1: "parse_corot_send n st c = Inr st1"
    and 2: "parse_corot_feed n st1 s = Inr st'"
    by (auto split: sum.splits)
  from send_plain_fragments [of n "fst st" "snd st" c "fst st1" "snd st1"] 1 Cons.prems
  have "style (snd st1) = []
        \<and> list_all (\<lambda>f. fst f = [] \<or> fst f = ''[ZeroWidthEscape]'') (formatted_text (fst st1))"
    by simp
  with Cons.IH [OF 2] show ?case by simp
qed

lemma ANSI_init_plain_fragments:
  "ANSI_init n v = Inr self
   \<Longrightarrow> list_all (\<lambda>f. fst f = [] \<or> fst f = ''[ZeroWidthEscape]'') (pt_formatted_text self)"
  using feed_plain_fragments [of n "(ansi_new v, corot_start)" v]
  by (auto simp: ANSI_init_def pt_formatted_text_def ansi_new_def corot_start_def split: sum.splits)

lemma ANSI_format_sanitized:
  "ANSI_format str_format names self args kwargs
     = ANSI_format str_format names self (map (\<lambda>x. StrArg (ansi_escape x)) args)
         (map (\<lambda>(k, x). (k, StrArg (ansi_escape x))) kwargs)"
proof -
  have "map ansi_escape (map (\<lambda>x. StrArg (ansi_escape x)) args) = map ansi_escape args"
    by (simp add: ansi_escape_idem)
  moreover have "map (\<lambda>(k, v). (k, ansi_escape v)) (map (\<lambda>(k, x). (k, StrArg (ansi_escape x))) kwargs)
      = map (\<lambda>(k, v). (k, ansi_escape v)) kwargs"
    by (simp add: ansi_escape_idem case_prod_unfold)
  ultimately show ?thesis
    by (simp only: ANSI_format_def Let_def)
qed

lemma ANSI_mod_sanitized:
  "ANSI_mod str_mod names self v
     = ANSI_mod str_mod names self
         (case v of TupleValue xs \<Rightarrow> TupleValue (map (\<lambda>x. StrArg (ansi_escape x)) xs)
                  | SingleValue x \<Rightarrow> SingleValue (StrArg (ansi_escape x)))"
  by (cases v) (simp_all add: ANSI_mod_def ansi_escape_idem comp_def)

lemma ANSI_format_plain_fragments:
  "ANSI_format str_format names self args kwargs = Inr r
   \<Longrightarrow> list_all (\<lambda>f. fst f = [] \<or> fst f = ''[ZeroWidthEscape]'') (pt_formatted_text r)"
  by (auto simp: ANSI_format_def Let_def split: sum.splits dest: ANSI_init_plain_fragments)

lemma ANSI_mod_plain_fragments:
  "ANSI_mod str_mod names self v = Inr r
   \<Longrightarrow> list_all (\<lambda>f. fst f = [] \<or> fst f = ''[ZeroWidthEscape]'') (pt_formatted_text r)"
  by (auto simp: ANSI_mod_def Let_def split: sum.splits dest: ANSI_init_plain_fragments)

text \<open>
  C10.  \<open>ANSI.format\<close> and \<open>%\<close> escape every argument before substitution, so that the
  fragments of the result never acquire style attributes from control codes in the
  arguments.  In the model: \<open>ansi_escape\<close> replaces every \<open>ESC\<close> and every backspace by
  \<open>?\<close> and leaves the other characters alone; the result of \<open>format\<close> and of \<open>%\<close> is the
  one obtained from arguments that were replaced by their escaped text beforehand,
  whatever the built-in substitution does; every fragment of a result has the empty
  style or is a zero-width fragment; and an escaped argument that the parser reads
  outside an escape sequence raises nothing, leaves the parser outside an escape
  sequence and changes no attribute of the object but its list of fragments.
\<close>

theorem ANSI_format_escapes_arguments:
  "ansi_escape a = map (\<lambda>c. if c = ESC \<or> c = BS then CHR ''?'' else c) (as_str a)
   \<and> ANSI_format str_format names self args kwargs
       = ANSI_format str_format names self (map (\<lambda>x. StrArg (ansi_escape x)) args)
           (map (\<lambda>(k, x). (k, StrArg (ansi_escape x))) kwargs)
   \<and> ANSI_mod str_mod names self v
       = ANSI_mod str_mod names self
           (case v of TupleValue xs \<Rightarrow> TupleValue (map (\<lambda>x. StrArg (ansi_escape x)) xs)
                    | SingleValue x \<Rightarrow> SingleValue (StrArg (ansi_escape x)))
   \<and> (\<forall>r. ANSI_format str_format names self args kwargs = Inr r
          \<longrightarrow> list_all (\<lambda>f. fst f = [] \<or> fst f = ''[ZeroWidthEscape]'') (pt_formatted_text r))
   \<and> (\<forall>r. ANSI_mod str_mod names self v = Inr r
          \<longrightarrow> list_all (\<lambda>f. fst f = [] \<or> fst f = ''[ZeroWidthEscape]'') (pt_formatted_text r))
   \<and> (\<not> in_escape_sequence fr
        \<longrightarrow> (\<exists>self' fr'. parse_corot_feed names (self0, fr) (ansi_escape a) = Inr (self', fr')
               \<and> \<not> in_escape_sequence fr' \<and> style fr' = style fr
               \<and> self' = self0\<lparr>formatted_text := formatted_text self'\<rparr>))"
  using ansi_escape_map [of a] ANSI_format_sanitized [of str_format names self args kwargs]
    ANSI_mod_sanitized [of str_mod names self v]
    ANSI_format_plain_fragments [of str_format names self args kwargs]
    ANSI_mod_plain_fragments [of str_mod names self v]
    feed_outside_escape [of fr "ansi_escape a" names self0, OF _ ansi_escape_no_ESC]
  by blast

theorem ANSI_format_escapes_arguments_witness:
  "ANSI_format (\<lambda>t as kw. Inr (t @ concat as)) None (ansi_new ''hi '') [StrArg (ESC # ''[1mX'')] []
     = Inr (ansi_new ''hi ?[1mX'')
   \<and> list_all (\<lambda>f. fst f = [] \<or> fst f = ''[ZeroWidthEscape]'')
       (pt_formatted_text (ansi_new ''hi ?[1mX''))
   \<and> ANSI_mod (\<lambda>t as. Inr (t @ concat as)) None (ansi_new ''hi '') (SingleValue (StrArg [BS]))
     = Inr (ansi_new ''hi ?'')
   \<and> list_all (\<lambda>f. fst f = [] \<or> fst f = ''[ZeroWidthEscape]'')
       (pt_formatted_text (ansi_new ''hi ?''))
   \<and> \<not> in_escape_sequence corot_start
   \<and> (\<exists>self' fr'. parse_corot_feed None (ansi_new ''hi '', corot_start)
                     (ansi_escape (StrArg (ESC # ''[1mX''))) = Inr (self', fr')
         \<and> \<not> in_escape_sequence fr' \<and> style fr' = style corot_start
         \<and> self' = (ansi_new ''hi '')\<lparr>formatted_text := formatted_text self'\<rparr>)"
proof -
  note inst = ANSI_format_escapes_arguments
    [of "StrArg (ESC # ''[1mX'')" "\<lambda>t as kw. Inr (t @ concat as)" None "ansi_new ''hi ''"
        "[StrArg (ESC # ''[1mX'')]" "[]" "\<lambda>t as. Inr (t @ concat as)" "SingleValue (StrArg [BS])"
        corot_start "ansi_new ''hi ''"]
  have h1: "ANSI_format (\<lambda>t as kw. Inr (t @ concat as)) None (ansi_new ''hi '')
              [StrArg (ESC # ''[1mX'')] [] = Inr (ansi_new ''hi ?[1mX'')"
    by (simp add: ANSI_format_def ansi_escape_def ansi_eval)
  have h2: "ANSI_mod (\<lambda>t as. Inr (t @ concat as)) None (ansi_new ''hi '') (SingleValue (StrArg [BS]))
              = Inr (ansi_new ''hi ?'')"
    by (simp add: ANSI_mod_def ansi_escape_def ansi_eval)
  have h3: "\<not> in_escape_sequence corot_start"
    by (simp add: corot_start_def)
  from inst h1 have c1: "list_all (\<lambda>f. fst f = [] \<or> fst f = ''[ZeroWidthEscape]'')
       (pt_formatted_text (ansi_new ''hi ?[1mX''))" by blast
  from inst h2 have c2: "list_all (\<lambda>f. fst f = [] \<or> fst f = ''[ZeroWidthEscape]'')
       (pt_formatted_text (ansi_new ''hi ?''))" by blast
  from inst h3 have c3: "\<exists>self' fr'. parse_corot_feed None (ansi_new ''hi '', corot_start)
                     (ansi_escape (StrArg (ESC # ''[1mX''))) = Inr (self', fr')
         \<and> \<not> in_escape_sequence fr' \<and> style fr' = style corot_start
         \<and> self' = (ansi_new ''hi '')\<lparr>formatted_text := formatted_text self'\<rparr>" by blast
  from h1 h2 h3 c1 c2 c3 show ?thesis by blast
qed

section \<open>Properties of the VT100 parser\<close>

subsection \<open>One \<open>send\<close>\<close>

text \<open>
  The iteration that finds no match for a prefix of a longer sequence sets \<open>retry\<close>
  and changes nothing else, so the next iteration is the same one: the \<open>send\<close> never
  returns.
\<close>

lemma loop_body_waiting:
  assumes "prefix \<noteq> []" and "get_match T prefix = None" and "is_prefix_of_longer_match T prefix"
  shows "loop_body T prefix False = (prefix, True, [])"
  using assms by (simp add: loop_body_def)

lemma run_to_yield_Some_not_waiting:
  assumes "run_to_yield T p f out = Some y"
  shows "\<not> (p \<noteq> [] \<and> \<not> f \<and> get_match T p = None \<and> is_prefix_of_longer_match T p)"
proof (rule run_to_yield.raw_induct [OF _ assms])
  fix run T' p' f' out' y'
  assume IH: "\<And>p f out b y. run p f out b = Some y
      \<Longrightarrow> \<not> (f \<noteq> [] \<and> \<not> out \<and> get_match p f = None \<and> is_prefix_of_longer_match p f)"
    and step: "(let r = loop_body T' p' f'
                in if fst (snd r) then run T' (fst r) False (out' @ snd (snd r))
                   else Some (fst r, out' @ snd (snd r))) = Some y'"
  show "\<not> (p' \<noteq> [] \<and> \<not> f' \<and> get_match T' p' = None \<and> is_prefix_of_longer_match T' p')"
  proof
    assume w: "p' \<noteq> [] \<and> \<not> f' \<and> get_match T' p' = None \<and> is_prefix_of_longer_match T' p'"
    then have "loop_body T' p' f' = (p', True, [])"
      using loop_body_waiting [of p' T'] by simp
    with step have "run T' p' False out' = Some y'" by simp
    from IH [OF this] w show False by simp
  qed
qed

lemma run_to_yield_never_returns:
  assumes "prefix \<noteq> []" and "get_match T prefix = None" and "is_prefix_of_longer_match T prefix"
  shows "run_to_yield T prefix False out = None"
proof (cases "run_to_yield T prefix False out")
  case None
  then show ?thesis .
next
  case (Some y)
  from run_to_yield_Some_not_waiting [OF this] assms show ?thesis by simp
qed

lemma run_to_yield_match:
  assumes "prefix \<noteq> []" and "get_match T prefix = Some m"
  shows "run_to_yield T prefix False out = Some ([], out @ call_handler m prefix)"
  using assms by (subst run_to_yield.simps) (simp add: loop_body_def)

lemma run_to_yield_empty: "run_to_yield T [] flush out = Some ([], out)"
  by (subst run_to_yield.simps) (simp add: loop_body_def)

lemma run_to_yield_literal:
  assumes "get_match T [c] = None" and "\<not> is_prefix_of_longer_match T [c]"
  shows "run_to_yield T [c] False out = Some ([], out @ [KeyPress (StrOf [c]) [c]])"
  using assms
  by (subst run_to_yield.simps) (simp add: loop_body_def run_to_yield_empty)

text \<open>The key presses of a handler call all carry the inserted text.\<close>

lemma call_handler_data:
  "list_all (\<lambda>e. press_data e = t) (call_handler k t)"
  by (induction k t rule: call_handler.induct) (simp_all add: list_all_iff)

text \<open>
  From an empty prefix, a character either is never answered, or leaves the prefix
  empty again and adds key presses that carry that single character.
\<close>

lemma send_char_from_empty:
  assumes "input_parser p = []"
  shows "input_parser_send T p (Chr c) = None
         \<or> (\<exists>out. input_parser_send T p (Chr c)
                     = Some (p\<lparr>input_parser := [], key_presses := key_presses p @ out\<rparr>)
                   \<and> list_all (\<lambda>e. press_data e = [c]) out)"
proof (cases "get_match T [c]")
  case (Some m)
  then show ?thesis
    using assms call_handler_data [of "[c]" m]
    by (auto simp: input_parser_send_def run_to_yield_match)
next
  case None
  show ?thesis
  proof (cases "is_prefix_of_longer_match T [c]")
    case True
    with None assms show ?thesis
      by (simp add: input_parser_send_def run_to_yield_never_returns)
  next
    case False
    with None assms show ?thesis
      by (auto simp: input_parser_send_def run_to_yield_literal)
  qed
qed

lemma feed_from_empty:
  assumes "input_parser p = []"
  shows "Vt100Parser_feed T p s = None
         \<or> (\<exists>out. Vt100Parser_feed T p s
                     = Some (p\<lparr>input_parser := [], key_presses := key_presses p @ out\<rparr>)
                   \<and> list_all (\<lambda>e. length (press_data e) = 1) out)"
  using assms
proof (induction s arbitrary: p)
  case Nil
  then have "p = p\<lparr>input_parser := [], key_presses := key_presses p @ []\<rparr>" by simp
  moreover have "list_all (\<lambda>e. length (press_data e) = 1) ([] :: KeyPress list)" by simp
  ultimately show ?case by (metis Vt100Parser_feed.simps(1))
next
  case (Cons c s)
  show ?case
  proof (cases "input_parser_send T p (Chr c)")
    case None
    then show ?thesis by simp
  next
    case (Some p1)
    with send_char_from_empty [OF Cons.prems, of T c]
    obtain out1 where p1: "p1 = p\<lparr>input_parser := [], key_presses := key_presses p @ out1\<rparr>"
      and o1: "list_all (\<lambda>e. press_data e = [c]) out1" by auto
    then have e1: "input_parser p1 = []" by simp
    from o1 have o1': "list_all (\<lambda>e. length (press_data e) = 1) out1"
      by (simp add: list_all_iff)
    from Cons.IH [OF e1] show ?thesis
    proof
      assume "Vt100Parser_feed T p1 s = None"
      with Some show ?thesis by simp
    next
      assume "\<exists>out. Vt100Parser_feed T p1 s
                     = Some (p1\<lparr>input_parser := [], key_presses := key_presses p1 @ out\<rparr>)
                   \<and> list_all (\<lambda>e. length (press_data e) = 1) out"
      then obtain out2 where
        f2: "Vt100Parser_feed T p1 s
               = Some (p1\<lparr>input_parser := [], key_presses := key_presses p1 @ out2\<rparr>)"
        and o2: "list_all (\<lambda>e. length (press_data e) = 1) out2" by blast
      have "Vt100Parser_feed T p (c # s)
              = Some (p\<lparr>input_parser := [], key_presses := key_presses p @ (out1 @ out2)\<rparr>)"
        using Some f2 p1 by simp
      moreover have "list_all (\<lambda>e. length (press_data e) = 1) (out1 @ out2)"
        using o1' o2 by simp
      ultimately show ?thesis by blast
    qed
  qed
qed

text \<open>
  C4.  The claim: feeding \<open>ESC [ A\<close> emits exactly one key event, for the Up key (and
  \<open>ESC\<close> followed by \<open>flush()\<close> exactly one, the Escape key).  The code does not do
  the first, for any table \<open>ANSI_SEQUENCES\<close>.  The generator reaches its \<open>yield\<close> only
  with an empty prefix, so it never holds a character back: a \<open>feed\<close> either does not
  return, or every key press it has emitted carries exactly one character.  With a
  table that maps \<open>ESC [ A\<close> to Up and has no entry for \<open>ESC\<close> alone, the first \<open>send\<close>
  never returns; with an entry for \<open>ESC\<close> as well, the three characters give three
  key presses, Escape and the literals \<open>[\<close> and \<open>A\<close>.
\<close>

theorem feed_cursor_up_is_not_one_key:
  "(Vt100Parser_feed T Vt100Parser_init (ESC # ''[A'') = None
    \<or> (\<exists>out. Vt100Parser_feed T Vt100Parser_init (ESC # ''[A'')
                = Some \<lparr>input_parser = [], key_presses = out\<rparr>
              \<and> list_all (\<lambda>e. length (press_data e) = 1) out))
   \<and> Vt100Parser_feed [(ESC # ''[A'', KeyOf Up)] Vt100Parser_init (ESC # ''[A'') = None
   \<and> Vt100Parser_feed [([ESC], KeyOf Escape), (ESC # ''[A'', KeyOf Up)] Vt100Parser_init
        (ESC # ''[A'')
      = Some \<lparr>input_parser = [],
              key_presses = [KeyPress (KeyOf Escape) [ESC],
                             KeyPress (StrOf ''['') ''['',
                             KeyPress (StrOf ''A'') ''A'']\<rparr>
   \<and> feed_and_flush [(ESC # ''[A'', KeyOf Up)] Vt100Parser_init [ESC] = None
   \<and> feed_and_flush [([ESC], KeyOf Escape), (ESC # ''[A'', KeyOf Up)] Vt100Parser_init [ESC]
      = Some \<lparr>input_parser = [], key_presses = [KeyPress (KeyOf Escape) [ESC]]\<rparr>"
proof -
  have general: "Vt100Parser_feed T Vt100Parser_init (ESC # ''[A'') = None
    \<or> (\<exists>out. Vt100Parser_feed T Vt100Parser_init (ESC # ''[A'')
                = Some \<lparr>input_parser = [], key_presses = out\<rparr>
              \<and> list_all (\<lambda>e. length (press_data e) = 1) out)"
    using feed_from_empty [of Vt100Parser_init T "ESC # ''[A''"]
    by (simp add: Vt100Parser_init_def)
  have "run_to_yield [(ESC # ''[A'', KeyOf Up)] [ESC] False [] = None"
    by (rule run_to_yield_never_returns)
      (simp_all add: get_match_def is_prefix_of_longer_match_def cpr_response_re_def
        mouse_event_re_def startswith_def ESC_def)
  then have waits: "Vt100Parser_feed [(ESC # ''[A'', KeyOf Up)] Vt100Parser_init (ESC # ''[A'') = None"
    by (simp add: input_parser_send_def Vt100Parser_init_def)
  have m1: "get_match [([ESC], KeyOf Escape), (ESC # ''[A'', KeyOf Up)] [ESC] = Some (KeyOf Escape)"
    by (simp add: get_match_def)
  have m2: "get_match [([ESC], KeyOf Escape), (ESC # ''[A'', KeyOf Up)] ''['' = None"
    "\<not> is_prefix_of_longer_match [([ESC], KeyOf Escape), (ESC # ''[A'', KeyOf Up)] ''[''"
    by (simp_all add: get_match_def is_prefix_of_longer_match_def cpr_response_re_def
        mouse_event_re_def cpr_response_prefix_re_def mouse_event_prefix_re_def
        startswith_def ESC_def)
  have m3: "get_match [([ESC], KeyOf Escape), (ESC # ''[A'', KeyOf Up)] ''A'' = None"
    "\<not> is_prefix_of_longer_match [([ESC], KeyOf Escape), (ESC # ''[A'', KeyOf Up)] ''A''"
    by (simp_all add: get_match_def is_prefix_of_longer_match_def cpr_response_re_def
        mouse_event_re_def cpr_response_prefix_re_def mouse_event_prefix_re_def
        startswith_def ESC_def)
  have three: "Vt100Parser_feed [([ESC], KeyOf Escape), (ESC # ''[A'', KeyOf Up)] Vt100Parser_init
        (ESC # ''[A'')
      = Some \<lparr>input_parser = [],
              key_presses = [KeyPress (KeyOf Escape) [ESC],
                             KeyPress (StrOf ''['') ''['',
                             KeyPress (StrOf ''A'') ''A'']\<rparr>"
    by (simp add: input_parser_send_def Vt100Parser_init_def
        run_to_yield_match [OF _ m1] run_to_yield_literal [OF m2] run_to_yield_literal [OF m3])
  have waits': "feed_and_flush [(ESC # ''[A'', KeyOf Up)] Vt100Parser_init [ESC] = None"
    using \<open>run_to_yield [(ESC # ''[A'', KeyOf Up)] [ESC] False [] = None\<close>
    by (simp add: feed_and_flush_def input_parser_send_def Vt100Parser_init_def)
  have one: "feed_and_flush [([ESC], KeyOf Escape), (ESC # ''[A'', KeyOf Up)] Vt100Parser_init [ESC]
      = Some \<lparr>input_parser = [], key_presses = [KeyPress (KeyOf Escape) [ESC]]\<rparr>"
    by (simp add: feed_and_flush_def Vt100Parser_flush_def input_parser_send_def
        Vt100Parser_init_def run_to_yield_match [OF _ m1] run_to_yield_empty)
  from general waits three waits' one show ?thesis by blast
qed

subsection \<open>Chunks\<close>

lemma feed_append:
  "Vt100Parser_feed T p (a @ b)
     = (case Vt100Parser_feed T p a of None \<Rightarrow> None | Some p' \<Rightarrow> Vt100Parser_feed T p' b)"
  by (induction a arbitrary: p) (simp_all split: option.splits)

lemma feed_chunks_concat:
  "feed_chunks T p chunks = Vt100Parser_feed T p (concat chunks)"
  by (induction chunks arbitrary: p) (simp_all add: feed_append split: option.splits)

text \<open>No regular expression of the module matches a single character.\<close>

lemma get_match_single: "get_match T [c] = map_of T [c]"
  by (simp add: get_match_def cpr_response_re_def mouse_event_re_def split: option.splits)

lemma is_prefix_single:
  "is_prefix_of_longer_match T [c]
     = list_ex (\<lambda>(k, v). startswith k [c] \<and> k \<noteq> [c] \<and> truthy v) T"
  by (simp add: is_prefix_of_longer_match_def cpr_response_prefix_re_def
      mouse_event_prefix_re_def)

text \<open>
  A table in which the first character of every longer sequence is a sequence of its
  own: no single character makes the parser wait.
\<close>

lemma no_waiting_single:
  assumes "list_all (\<lambda>(k, v). length k \<le> 1 \<or> \<not> truthy v \<or> map_of T (take 1 k) \<noteq> None) T"
    and "get_match T [c] = None"
  shows "\<not> is_prefix_of_longer_match T [c]"
proof
  assume "is_prefix_of_longer_match T [c]"
  then obtain k v where kv: "(k, v) \<in> set T" and sw: "startswith k [c]" and ne: "k \<noteq> [c]"
    and tr: "truthy v"
    by (auto simp: is_prefix_single list_ex_iff)
  from sw have t1: "take 1 k = [c]" by (simp add: startswith_def)
  with ne have "1 < length k" by (cases k) auto
  with assms(1) kv tr have "map_of T (take 1 k) \<noteq> None"
    by (auto simp: list_all_iff)
  with t1 assms(2) show False by (simp add: get_match_single)
qed

lemma send_char_returns:
  assumes "list_all (\<lambda>(k, v). length k \<le> 1 \<or> \<not> truthy v \<or> map_of T (take 1 k) \<noteq> None) T"
    and "input_parser p = []"
  shows "\<exists>p'. input_parser_send T p (Chr c) = Some p' \<and> input_parser p' = []"
proof (cases "get_match T [c]")
  case None
  from no_waiting_single [OF assms(1) None] None assms(2) show ?thesis
    by (simp add: input_parser_send_def run_to_yield_literal)
next
  case (Some m)
  with assms(2) show ?thesis
    by (simp add: input_parser_send_def run_to_yield_match)
qed

lemma feed_returns:
  assumes "list_all (\<lambda>(k, v). length k \<le> 1 \<or> \<not> truthy v \<or> map_of T (take 1 k) \<noteq> None) T"
    and "input_parser p = []"
  shows "\<exists>p'. Vt100Parser_feed T p s = Some p' \<and> input_parser p' = []"
  using assms(2)
proof (induction s arbitrary: p)
  case Nil
  then show ?case by simp
next
  case (Cons c s)
  from send_char_returns [OF assms(1) Cons.prems, of c]
  obtain p1 where 1: "input_parser_send T p (Chr c) = Some p1" and 2: "input_parser p1 = []"
    by blast
  from Cons.IH [OF 2] 1 show ?case by simp
qed

lemma flush_from_empty:
  assumes "input_parser p = []"
  shows "Vt100Parser_flush T p = Some p"
  using assms by (simp add: Vt100Parser_flush_def input_parser_send_def run_to_yield_empty)

text \<open>
  C5.  Chunking invariance: feeding the chunks of an input one by one and then
  calling \<open>flush()\<close> leaves the parser, and the key presses it has emitted, exactly
  as feeding the whole input in one call and then calling \<open>flush()\<close> does.  This
  holds for every table, every parser state, every input and every way to cut it,
  including the runs in which a \<open>send\<close> never returns (both runs then stop at the same
  character).  In a fresh parser, and with a table in which the first character of
  every longer sequence is a sequence of its own, both runs return.
\<close>

theorem feed_chunks_then_flush:
  "(case feed_chunks T p chunks of None \<Rightarrow> None | Some p' \<Rightarrow> Vt100Parser_flush T p')
     = feed_and_flush T p (concat chunks)
   \<and> (input_parser p = []
        \<and> list_all (\<lambda>(k, v). length k \<le> 1 \<or> \<not> truthy v \<or> map_of T (take 1 k) \<noteq> None) T
      \<longrightarrow> (\<exists>p'. feed_and_flush T p (concat chunks) = Some p' \<and> input_parser p' = []))"
proof -
  have "(case feed_chunks T p chunks of None \<Rightarrow> None | Some p' \<Rightarrow> Vt100Parser_flush T p')
     = feed_and_flush T p (concat chunks)"
    by (simp add: feed_chunks_concat feed_and_flush_def)
  moreover have "\<exists>p'. feed_and_flush T p (concat chunks) = Some p' \<and> input_parser p' = []"
    if "input_parser p = []"
      and "list_all (\<lambda>(k, v). length k \<le> 1 \<or> \<not> truthy v \<or> map_of T (take 1 k) \<noteq> None) T"
  proof -
    from feed_returns [OF that(2) that(1), of "concat chunks"]
    obtain p1 where "Vt100Parser_feed T p (concat chunks) = Some p1" and "input_parser p1 = []"
      by blast
    then show ?thesis
      by (simp add: feed_and_flush_def flush_from_empty)
  qed
  ultimately show ?thesis by blast
qed

theorem feed_chunks_then_flush_witness:
  "input_parser Vt100Parser_init = []
   \<and> list_all (\<lambda>(k, v). length k \<le> 1 \<or> \<not> truthy v
          \<or> map_of [([ESC], KeyOf Escape), (ESC # ''[A'', KeyOf Up)] (take 1 k) \<noteq> None)
       [([ESC], KeyOf Escape), (ESC # ''[A'', KeyOf Up)]
   \<and> (case feed_chunks [([ESC], KeyOf Escape), (ESC # ''[A'', KeyOf Up)] Vt100Parser_init
              [[ESC], ''[A''] of
         None \<Rightarrow> None
       | Some p' \<Rightarrow> Vt100Parser_flush [([ESC], KeyOf Escape), (ESC # ''[A'', KeyOf Up)] p')
     = feed_and_flush [([ESC], KeyOf Escape), (ESC # ''[A'', KeyOf Up)] Vt100Parser_init
         (concat [[ESC], ''[A''])
   \<and> (\<exists>p'. feed_and_flush [([ESC], KeyOf Escape), (ESC # ''[A'', KeyOf Up)] Vt100Parser_init
              (concat [[ESC], ''[A'']) = Some p' \<and> input_parser p' = [])"
proof -
  note inst = feed_chunks_then_flush
    [of "[([ESC], KeyOf Escape), (ESC # ''[A'', KeyOf Up)]" Vt100Parser_init "[[ESC], ''[A'']"]
  have h1: "input_parser Vt100Parser_init = []"
    by (simp add: Vt100Parser_init_def)
  have h2: "list_all (\<lambda>(k, v). length k \<le> 1 \<or> \<not> truthy v
          \<or> map_of [([ESC], KeyOf Escape), (ESC # ''[A'', KeyOf Up)] (take 1 k) \<noteq> None)
       [([ESC], KeyOf Escape), (ESC # ''[A'', KeyOf Up)]"
    by simp
  from inst h1 h2 show ?thesis by blast
qed

section \<open>Properties of the scrollable pane\<close>

text \<open>
  C6, as stated.  The claim: \<open>vertical_scroll\<close> is in \<open>[0, max(0, H - V)]\<close> at
  construction and after every render pass, and for \<open>H > V\<close> with the cursor at row
  \<open>r\<close>, after one pass \<open>r - top \<le> vertical_scroll \<le> r - V + bottom + 1\<close>.  Two render
  passes of a pane built with the default arguments, at the top of the screen with a
  viewport of 10 rows, show that neither part holds.  With 100 rows of content and
  the cursor in row 0 the pane stays at offset 0, which is above the claimed upper
  bound \<open>0 - 10 + 1 + 1\<close>.  With 5 rows of content the pane scrolls to offset 5, which
  is above \<open>max(0, 5 - 10)\<close>.  And when the content shrinks between two passes the
  range is left even with \<open>keep_focused_window_visible\<close> off: a pass over 100 rows with
  the cursor in row 99 scrolls to 90, and the next pass, over 20 rows with the cursor
  in row 15, scrolls to 14, which is above \<open>max(0, 20 - 10)\<close>.
\<close>

theorem vertical_scroll_claim_counterexample:
  "vertical_scroll
     (write_to_screen (ScrollablePane_init None None None None)
        \<lparr>xpos = 0, ypos = 0, width = 80, height = 10\<rparr> 100 (Some \<lparr>point_x = 0, point_y = 0\<rparr>)) = 0
   \<and> \<not> (0 - offset_top (scroll_offsets (ScrollablePane_init None None None None))
          \<le> vertical_scroll
              (write_to_screen (ScrollablePane_init None None None None)
                 \<lparr>xpos = 0, ypos = 0, width = 80, height = 10\<rparr> 100
                 (Some \<lparr>point_x = 0, point_y = 0\<rparr>))
        \<and> vertical_scroll
              (write_to_screen (ScrollablePane_init None None None None)
                 \<lparr>xpos = 0, ypos = 0, width = 80, height = 10\<rparr> 100
                 (Some \<lparr>point_x = 0, point_y = 0\<rparr>))
          \<le> 0 - 10 + offset_bottom (scroll_offsets (ScrollablePane_init None None None None)) + 1)
   \<and> vertical_scroll
       (write_to_screen (ScrollablePane_init None None None None)
          \<lparr>xpos = 0, ypos = 0, width = 80, height = 10\<rparr> 5 (Some \<lparr>point_x = 0, point_y = 0\<rparr>)) = 5
   \<and> \<not> (vertical_scroll
          (write_to_screen (ScrollablePane_init None None None None)
             \<lparr>xpos = 0, ypos = 0, width = 80, height = 10\<rparr> 5 (Some \<lparr>point_x = 0, point_y = 0\<rparr>))
        \<le> max 0 (5 - 10))
   \<and> vertical_scroll
       (write_to_screen (ScrollablePane_init None None (Some False) None)
          \<lparr>xpos = 0, ypos = 0, width = 80, height = 10\<rparr> 100 (Some \<lparr>point_x = 0, point_y = 99\<rparr>)) = 90
   \<and> vertical_scroll
       (write_to_screen
          (write_to_screen (ScrollablePane_init None None (Some False) None)
             \<lparr>xpos = 0, ypos = 0, width = 80, height = 10\<rparr> 100 (Some \<lparr>point_x = 0, point_y = 99\<rparr>))
          \<lparr>xpos = 0, ypos = 0, width = 80, height = 10\<rparr> 20 (Some \<lparr>point_x = 0, point_y = 15\<rparr>)) = 14
   \<and> \<not> (vertical_scroll
          (write_to_screen
             (write_to_screen (ScrollablePane_init None None (Some False) None)
                \<lparr>xpos = 0, ypos = 0, width = 80, height = 10\<rparr> 100
                (Some \<lparr>point_x = 0, point_y = 99\<rparr>))
             \<lparr>xpos = 0, ypos = 0, width = 80, height = 10\<rparr> 20 (Some \<lparr>point_x = 0, point_y = 15\<rparr>))
        \<le> max 0 (20 - 10))"
  by (simp add: write_to_screen_def make_window_visible_def scroll_for_cursor_def
      scroll_for_window_def ScrollablePane_init_def MAX_AVAILABLE_HEIGHT_def Let_def)

text \<open>The cursor rule alone.\<close>

lemma scroll_for_cursor_filter:
  "keep_focused_window_visible (scroll_for_cursor self vh H r) = keep_focused_window_visible self"
  by (simp add: scroll_for_cursor_def Let_def)

lemma scroll_for_cursor_range:
  assumes "0 \<le> vertical_scroll self" and "vertical_scroll self \<le> max 0 (H - V)"
  shows "0 \<le> vertical_scroll (scroll_for_cursor self (min V (H - vertical_scroll self)) H r)
         \<and> vertical_scroll (scroll_for_cursor self (min V (H - vertical_scroll self)) H r)
             \<le> max 0 (H - V)"
  using assms by (auto simp: scroll_for_cursor_def Let_def)

lemma scroll_for_cursor_visible:
  assumes "keep_cursor_visible self"
    and "0 \<le> vertical_scroll self" and "vertical_scroll self \<le> H - V"
    and "offset_top (scroll_offsets self) + offset_bottom (scroll_offsets self) < V"
  shows "min (H - V) (r - V + offset_bottom (scroll_offsets self) + 1)
           \<le> vertical_scroll (scroll_for_cursor self V H r)
         \<and> vertical_scroll (scroll_for_cursor self V H r)
             \<le> max 0 (r - offset_top (scroll_offsets self))"
  using assms by (auto simp: scroll_for_cursor_def Let_def)

text \<open>
  C6, amended.  With \<open>keep_focused_window_visible\<close> off, \<open>vertical_scroll\<close> is 0 at
  construction, and a render pass that starts with \<open>vertical_scroll\<close> in
  \<open>[0, max(0, H - V)]\<close> ends with it in the same range (\<open>H\<close> the height of the content,
  \<open>V\<close> the height of the viewport).  Moreover, when \<open>keep_cursor_visible\<close> is on,
  \<open>H > V\<close>, the two scroll offsets together are smaller than \<open>V\<close> and the cursor is at
  row \<open>r\<close>, then after the pass
  \<open>min(H - V, r - V + bottom + 1) \<le> vertical_scroll \<le> max(0, r - top)\<close>.
\<close>

theorem vertical_scroll_cursor_rule:
  assumes "\<not> keep_focused_window_visible self"
    and "0 \<le> vertical_scroll self"
    and "vertical_scroll self \<le> max 0 (H - height write_position)"
  shows "vertical_scroll (ScrollablePane_init so kc kf mh) = 0
    \<and> 0 \<le> vertical_scroll (write_to_screen self write_position H cursor_position)
    \<and> vertical_scroll (write_to_screen self write_position H cursor_position)
        \<le> max 0 (H - height write_position)
    \<and> (keep_cursor_visible self \<and> height write_position < H
        \<and> offset_top (scroll_offsets self) + offset_bottom (scroll_offsets self)
            < height write_position
        \<and> cursor_position = Some c
       \<longrightarrow> min (H - height write_position)
                (point_y c - height write_position + offset_bottom (scroll_offsets self) + 1)
             \<le> vertical_scroll (write_to_screen self write_position H cursor_position)
           \<and> vertical_scroll (write_to_screen self write_position H cursor_position)
             \<le> max 0 (point_y c - offset_top (scroll_offsets self)))"
proof -
  have init: "vertical_scroll (ScrollablePane_init so kc kf mh) = 0"
    by (simp add: ScrollablePane_init_def)
  have pass: "vertical_scroll (write_to_screen self write_position H cursor_position)
      = (case cursor_position of
           None \<Rightarrow> vertical_scroll self
         | Some p \<Rightarrow> vertical_scroll
             (scroll_for_cursor self (min (height write_position) (H - vertical_scroll self)) H
                (point_y p)))"
    using assms(1)
    by (simp add: write_to_screen_def make_window_visible_def scroll_for_window_def
        scroll_for_cursor_filter Let_def split: option.splits)
  have range: "0 \<le> vertical_scroll (write_to_screen self write_position H cursor_position)
    \<and> vertical_scroll (write_to_screen self write_position H cursor_position)
        \<le> max 0 (H - height write_position)"
  proof (cases cursor_position)
    case None
    with pass assms show ?thesis by simp
  next
    case (Some p)
    with pass scroll_for_cursor_range [OF assms(2) assms(3), of "point_y p"]
    show ?thesis by simp
  qed
  have cursor: "min (H - height write_position)
                (point_y c - height write_position + offset_bottom (scroll_offsets self) + 1)
             \<le> vertical_scroll (write_to_screen self write_position H cursor_position)
           \<and> vertical_scroll (write_to_screen self write_position H cursor_position)
             \<le> max 0 (point_y c - offset_top (scroll_offsets self))"
    if kc: "keep_cursor_visible self" and hv: "height write_position < H"
      and offs: "offset_top (scroll_offsets self) + offset_bottom (scroll_offsets self)
                   < height write_position"
      and cur: "cursor_position = Some c"
  proof -
    from hv assms(3) have le: "vertical_scroll self \<le> H - height write_position" by simp
    then have vh: "min (height write_position) (H - vertical_scroll self) = height write_position"
      by simp
    from scroll_for_cursor_visible [OF kc assms(2) le offs, of "point_y c"] pass cur vh
    show ?thesis by simp
  qed
  from init range cursor show ?thesis by blast
qed

theorem vertical_scroll_cursor_rule_witness:
  "\<not> keep_focused_window_visible (ScrollablePane_init None None (Some False) None)
   \<and> 0 \<le> vertical_scroll (ScrollablePane_init None None (Some False) None)
   \<and> vertical_scroll (ScrollablePane_init None None (Some False) None)
       \<le> max 0 (100 - height \<lparr>xpos = 0, ypos = 0, width = 80, height = 10\<rparr>)
   \<and> keep_cursor_visible (ScrollablePane_init None None (Some False) None)
   \<and> height \<lparr>xpos = 0, ypos = 0, width = 80, height = 10\<rparr> < 100
   \<and> offset_top (scroll_offsets (ScrollablePane_init None None (Some False) None))
       + offset_bottom (scroll_offsets (ScrollablePane_init None None (Some False) None))
       < height \<lparr>xpos = 0, ypos = 0, width = 80, height = 10\<rparr>
   \<and> vertical_scroll
       (write_to_screen (ScrollablePane_init None None (Some False) None)
          \<lparr>xpos = 0, ypos = 0, width = 80, height = 10\<rparr> 100
          (Some \<lparr>point_x = 0, point_y = 50\<rparr>)) = 42
   \<and> min (100 - height \<lparr>xpos = 0, ypos = 0, width = 80, height = 10\<rparr>)
       (point_y \<lparr>point_x = 0, point_y = 50\<rparr> - height \<lparr>xpos = 0, ypos = 0, width = 80, height = 10\<rparr>
          + offset_bottom (scroll_offsets (ScrollablePane_init None None (Some False) None)) + 1)
       \<le> vertical_scroll
           (write_to_screen (ScrollablePane_init None None (Some False) None)
              \<lparr>xpos = 0, ypos = 0, width = 80, height = 10\<rparr> 100
              (Some \<lparr>point_x = 0, point_y = 50\<rparr>))
   \<and> vertical_scroll
       (write_to_screen (ScrollablePane_init None None (Some False) None)
          \<lparr>xpos = 0, ypos = 0, width = 80, height = 10\<rparr> 100
          (Some \<lparr>point_x = 0, point_y = 50\<rparr>))
       \<le> max 0 (point_y \<lparr>point_x = 0, point_y = 50\<rparr>
                  - offset_top (scroll_offsets (ScrollablePane_init None None (Some False) None)))"
proof -
  have h1: "\<not> keep_focused_window_visible (ScrollablePane_init None None (Some False) None)"
    by (simp add: ScrollablePane_init_def)
  have h2: "0 \<le> vertical_scroll (ScrollablePane_init None None (Some False) None)"
    by (simp add: ScrollablePane_init_def)
  have h3: "vertical_scroll (ScrollablePane_init None None (Some False) None)
       \<le> max 0 (100 - height \<lparr>xpos = 0, ypos = 0, width = 80, height = 10\<rparr>)"
    by (simp add: ScrollablePane_init_def)
  have h4: "keep_cursor_visible (ScrollablePane_init None None (Some False) None)
     \<and> height \<lparr>xpos = 0, ypos = 0, width = 80, height = 10\<rparr> < 100
     \<and> offset_top (scroll_offsets (ScrollablePane_init None None (Some False) None))
         + offset_bottom (scroll_offsets (ScrollablePane_init None None (Some False) None))
         < height \<lparr>xpos = 0, ypos = 0, width = 80, height = 10\<rparr>"
    by (simp add: ScrollablePane_init_def)
  have v: "vertical_scroll
       (write_to_screen (ScrollablePane_init None None (Some False) None)
          \<lparr>xpos = 0, ypos = 0, width = 80, height = 10\<rparr> 100
          (Some \<lparr>point_x = 0, point_y = 50\<rparr>)) = 42"
    by (simp add: write_to_screen_def make_window_visible_def scroll_for_cursor_def
        scroll_for_window_def ScrollablePane_init_def MAX_AVAILABLE_HEIGHT_def Let_def)
  from vertical_scroll_cursor_rule [OF h1 h2 h3, of None None None None
      "Some \<lparr>point_x = 0, point_y = 50\<rparr>" "\<lparr>point_x = 0, point_y = 50\<rparr>"] h4
  have c: "min (100 - height \<lparr>xpos = 0, ypos = 0, width = 80, height = 10\<rparr>)
       (point_y \<lparr>point_x = 0, point_y = 50\<rparr> - height \<lparr>xpos = 0, ypos = 0, width = 80, height = 10\<rparr>
          + offset_bottom (scroll_offsets (ScrollablePane_init None None (Some False) None)) + 1)
       \<le> vertical_scroll
           (write_to_screen (ScrollablePane_init None None (Some False) None)
              \<lparr>xpos = 0, ypos = 0, width = 80, height = 10\<rparr> 100
              (Some \<lparr>point_x = 0, point_y = 50\<rparr>))
   \<and> vertical_scroll
       (write_to_screen (ScrollablePane_init None None (Some False) None)
          \<lparr>xpos = 0, ypos = 0, width = 80, height = 10\<rparr> 100
          (Some \<lparr>point_x = 0, point_y = 50\<rparr>))
       \<le> max 0 (point_y \<lparr>point_x = 0, point_y = 50\<rparr>
                  - offset_top (scroll_offsets (ScrollablePane_init None None (Some False) None)))"
    by blast
  from h1 h2 h3 h4 v c show ?thesis by blast
qed

section \<open>Properties of the generator bridge\<close>

lemma producer_loop_fills:
  assumes "0 < maxsize" and "maxsize \<le> int (length queue + length items)"
  shows "queue_full maxsize (fst (producer_loop maxsize items queue))"
  using assms(2)
proof (induction items arbitrary: queue)
  case Nil
  with assms(1) show ?case by (simp add: queue_full_def)
next
  case (Cons item rest)
  show ?case
  proof (cases "queue_full maxsize queue")
    case True
    then show ?thesis by simp
  next
    case False
    from Cons.prems have "maxsize \<le> int (length (queue @ [Item item]) + length rest)" by simp
    from Cons.IH [OF this] False show ?thesis by simp
  qed
qed

lemma producer_loop_room:
  assumes "maxsize \<le> 0 \<or> int (length queue + length items) < maxsize"
  shows "producer_loop maxsize items queue = (queue @ map Item items, None)"
  using assms
proof (induction items arbitrary: queue)
  case Nil
  then show ?case by simp
next
  case (Cons item rest)
  then have "\<not> queue_full maxsize queue" by (auto simp: queue_full_def)
  moreover from Cons.prems
  have "maxsize \<le> 0 \<or> int (length (queue @ [Item item]) + length rest) < maxsize" by simp
  from Cons.IH [OF this] have "producer_loop maxsize rest (queue @ [Item item])
      = (queue @ map Item (item # rest), None)" by simp
  ultimately show ?case by simp
qed

lemma consume_items: "consume (map Item xs @ Done # rest) = Some xs"
  by (induction xs) simp_all

text \<open>
  Below the capacity of the queue (or with an unbounded queue) the producer finishes
  and the consumer gets every item, in order, and then the end of the iteration.
\<close>

lemma bridge_delivers_below_capacity:
  assumes "buffer_size \<le> 0 \<or> int (length items) < buffer_size"
  shows "generator_to_async_generator items buffer_size = Yields items"
proof -
  from assms have "producer_loop buffer_size items [] = ([] @ map Item items, None)"
    by (intro producer_loop_room) simp
  moreover from assms have "\<not> queue_full buffer_size (map Item items)"
    by (auto simp: queue_full_def)
  ultimately show ?thesis
    using consume_items [of items "[]"]
    by (simp add: generator_to_async_generator_def producer_def)
qed

text \<open>
  C3.  The claim: a producer that yields \<open>N\<close> items is delivered completely, in order,
  followed by one end-of-sequence signal, also when \<open>N\<close> exceeds the capacity of the
  queue.  The code does not do this.  The generator awaits the end of \<open>producer\<close>
  before it takes anything out of the queue, so a producer with at least as many
  items as the queue has room for stops at a full queue for good: the consumer gets
  no item and no end-of-sequence signal.
\<close>

theorem bridge_hangs_at_capacity:
  assumes "0 < buffer_size" and "buffer_size \<le> int (length items)"
  shows "generator_to_async_generator items buffer_size = Hangs"
proof -
  from assms have "queue_full buffer_size (fst (producer_loop buffer_size items []))"
    by (intro producer_loop_fills) simp_all
  then show ?thesis
    by (simp add: generator_to_async_generator_def producer_def)
qed

theorem bridge_hangs_at_capacity_witness:
  "0 < DEFAULT_BUFFER_SIZE
   \<and> DEFAULT_BUFFER_SIZE \<le> int (length (replicate 1001 (0 :: nat)))
   \<and> generator_to_async_generator (replicate 1001 (0 :: nat)) DEFAULT_BUFFER_SIZE = Hangs"
proof -
  have h1: "0 < DEFAULT_BUFFER_SIZE"
    by (simp add: DEFAULT_BUFFER_SIZE_def)
  have h2: "DEFAULT_BUFFER_SIZE \<le> int (length (replicate 1001 (0 :: nat)))"
    by (simp add: DEFAULT_BUFFER_SIZE_def)
  from h1 h2 bridge_hangs_at_capacity [OF h1 h2] show ?thesis by blast
qed

end
